theory Spec2Isabelle
  imports Complex_Main "HOL-Library.Char_ord" "HOL-Library.List_Lexorder"
begin

section \<open>BossDBUpload: provisioning and chunked upload (export/bossdb.py)\<close>

text \<open>
  The class \<^verbatim>\<open>BossDBUpload\<close> talks to four outside parties: the remote store
  (\<^verbatim>\<open>BossDBInterface\<close>, \<^verbatim>\<open>BossRemote\<close>), the file system (\<^verbatim>\<open>Path.glob\<close>,
  \<^verbatim>\<open>Image.open\<close>) and numpy. Their answers are parameters of the model (the record
  \<open>env\<close>); every call to the remote store or the file system is written, with its
  answer, to a trace of events, and each answer may depend on the trace so far. The
  methods are functions from a trace to a result and the extended trace; an exception
  is the left summand of the result.
\<close>

subsection \<open>Exceptions\<close>

text \<open>
  The exception classes that occur: \<^verbatim>\<open>requests.HTTPError\<close> with the status code of its
  response, the sibling \<^verbatim>\<open>requests.ConnectionError\<close>, the \<^verbatim>\<open>DataJointError\<close> of
  \<^verbatim>\<open>fetch_images\<close>, Python's own errors, and any other subclass of \<^verbatim>\<open>Exception\<close>.
  All of them are subclasses of \<^verbatim>\<open>Exception\<close>, so the handler \<^verbatim>\<open>except Exception\<close> of
  the retry loop receives each of them; a \<^verbatim>\<open>KeyboardInterrupt\<close> is outside the model.
\<close>

datatype exn =
    HTTPError nat
  | ConnectionError
  | DataJointError string
  | AttributeError string
  | TypeError string
  | ValueError string
  | OtherException string

text \<open>The handler \<^verbatim>\<open>except HTTPError\<close>: it matches the class, whatever the status.\<close>

fun is_HTTPError :: "exn \<Rightarrow> bool" where
  "is_HTTPError (HTTPError status) = True"
| "is_HTTPError ConnectionError = False"
| "is_HTTPError (DataJointError m) = False"
| "is_HTTPError (AttributeError m) = False"
| "is_HTTPError (TypeError m) = False"
| "is_HTTPError (ValueError m) = False"
| "is_HTTPError (OtherException m) = False"

text \<open>An instance attribute that \<^verbatim>\<open>__init__\<close> may not have assigned yet.\<close>

datatype 'a attr = Unset | Assigned 'a

text \<open>
  A dtype as the object holds it: the \<^verbatim>\<open>str\<close> the caller gave, or the numpy dtype object
  of the array in memory (with its name).
\<close>

datatype dtype_value = DtypeStr string | DtypeNp string

subsection \<open>Resource descriptors\<close>

record url_bits =
  ub_collection :: string
  ub_experiment :: string
  ub_channel :: string

record CollectionResource =
  col_name :: string
  col_description :: string

record CoordinateFrameResource =
  cf_name :: string
  cf_description :: string
  x_start :: int
  x_stop :: int
  y_start :: int
  y_stop :: int
  z_start :: int
  z_stop :: int
  x_voxel_size :: real
  y_voxel_size :: real
  z_voxel_size :: real

record ExperimentResource =
  exp_name :: string
  exp_collection_name :: string
  exp_coord_frame :: string
  exp_description :: string

text \<open>
  \<open>ch_datatype\<close> is the data type the constructor of intern's \<^verbatim>\<open>ChannelResource\<close> stored
  after it has checked its \<^verbatim>\<open>datatype\<close> argument. \<open>ch_sources\<close> is \<open>None\<close> where the
  constructor call passes no \<^verbatim>\<open>sources\<close> argument (the descriptor \<^verbatim>\<open>channel_resource\<close>).
\<close>

record ChannelResource =
  ch_name :: string
  ch_collection_name :: string
  ch_experiment_name :: string
  ch_type :: string
  ch_description :: string
  ch_datatype :: string
  ch_sources :: "string list option"

datatype resource =
    Collection CollectionResource
  | CoordinateFrame CoordinateFrameResource
  | Experiment ExperimentResource
  | Channel ChannelResource

text \<open>The attribute \<^verbatim>\<open>.name\<close> of a resource object.\<close>

fun resource_name :: "resource \<Rightarrow> string" where
  "resource_name (Collection c) = col_name c"
| "resource_name (CoordinateFrame f) = cf_name f"
| "resource_name (Experiment x) = exp_name x"
| "resource_name (Channel c) = ch_name c"

text \<open>The dictionary \<^verbatim>\<open>self._resources\<close> once it is filled (five fixed keys).\<close>

record resources_dict =
  r_collection :: CollectionResource
  r_coord_frame :: CoordinateFrameResource
  r_experiment :: ExperimentResource
  r_channel_resource :: ChannelResource
  r_channel :: ChannelResource

subsection \<open>Arrays\<close>

text \<open>
  A 3-D numpy array in ZYX order: its entries along axis 0 (2-D planes, whose pixel
  content is of an arbitrary type \<open>'p\<close>), the other two extents, the dtype and the
  flag \<^verbatim>\<open>flags["C_CONTIGUOUS"]\<close>. The memory layout itself is not modelled: the flag of
  a view and the result of \<^verbatim>\<open>np.ascontiguousarray\<close> come from \<open>env\<close>.
\<close>

record 'p ndarray =
  planes :: "'p list"
  dim_y :: nat
  dim_x :: nat
  np_dtype :: string
  c_contiguous :: bool

text \<open>A decoded image: the 2-D array \<^verbatim>\<open>np.array(image, dtype=...)\<close>.\<close>

record 'p plane =
  pixels :: 'p
  rows :: nat
  cols :: nat
  pl_dtype :: string

text \<open>
  Python's \<^verbatim>\<open>xs[i:j]\<close> on a sequence: a negative bound counts from the end, and both
  bounds are clamped to the sequence.
\<close>

definition slice_bound :: "nat \<Rightarrow> int \<Rightarrow> nat" where
  "slice_bound n k = (if k < 0 then nat (max (k + int n) 0) else min (nat k) n)"

definition py_slice :: "'a list \<Rightarrow> int \<Rightarrow> int \<Rightarrow> 'a list" where
  "py_slice xs i j =
     (let a = slice_bound (length xs) i; b = slice_bound (length xs) j
      in take (b - a) (drop a xs))"

subsection \<open>The remote write and the events\<close>

text \<open>The keyword arguments of \<^verbatim>\<open>BossDBInterface(...)\<close> in the property \<^verbatim>\<open>dataset\<close>.\<close>

record dataset_args =
  ds_url :: string
  ds_extents :: "int \<times> int \<times> int"
  ds_dtype :: "dtype_value option"
  ds_resolution :: int
  ds_voxel_size :: "real \<times> real \<times> real"
  ds_voxel_unit :: string
  ds_create_new :: bool
  ds_source_channel :: string

text \<open>
  One assignment \<^verbatim>\<open>self.dataset[z0:z1, y0:y1, x0:x1] = stack\<close>: the dataset, the three
  half-open ranges and the buffer.
\<close>

record 'p cutout =
  c_dataset :: dataset_args
  z_range :: "int \<times> int"
  y_range :: "int \<times> int"
  x_range :: "int \<times> int"
  buffer :: "'p ndarray"

datatype ('img, 'p) event =
    Exists string "exn + bool"
  | GetProject resource "exn + resource"
  | CreateProject resource "exn + resource"
  | Glob string string "string list"
  | ImageOpen string "exn + 'img"
  | WriteCutout "'p cutout" "exn option"

type_synonym ('img, 'p) trace = "('img, 'p) event list"

text \<open>The calls of provisioning and the calls that write.\<close>

fun is_provisioning :: "('img, 'p) event \<Rightarrow> bool" where
  "is_provisioning (GetProject d r) = True"
| "is_provisioning (CreateProject d r) = True"
| "is_provisioning (Exists u r) = False"
| "is_provisioning (Glob d p r) = False"
| "is_provisioning (ImageOpen p r) = False"
| "is_provisioning (WriteCutout c r) = False"

fun is_write :: "('img, 'p) event \<Rightarrow> bool" where
  "is_write (WriteCutout c r) = True"
| "is_write (GetProject d r) = False"
| "is_write (CreateProject d r) = False"
| "is_write (Exists u r) = False"
| "is_write (Glob d p r) = False"
| "is_write (ImageOpen p r) = False"

subsection \<open>The outside world\<close>

text \<open>
  \<^item> \<open>parse_bossdb_uri\<close>: intern's \<^verbatim>\<open>_parse_bossdb_uri\<close>;
  \<^item> \<open>py_float\<close>: \<^verbatim>\<open>float(i)\<close> of an integer, the double next to it (the number itself
    up to \<open>2 ^ 53\<close>, a rounded one beyond), taken not to overflow;
  \<^item> \<open>validate_datatype\<close>: the check the constructor of intern's \<^verbatim>\<open>ChannelResource\<close>
    makes of its \<^verbatim>\<open>datatype\<close> argument: the data type it stores, or the exception it
    raises (as it does for an argument that is not the name of a data type it knows);
  \<^item> \<open>bossdb_exists\<close>: \<^verbatim>\<open>BossDBInterface(url).exists\<close>;
  \<^item> \<open>get_project\<close>, \<open>create_project\<close>: the methods of \<^verbatim>\<open>BossRemote\<close>;
  \<^item> \<open>write_cutout\<close>: the item assignment on \<^verbatim>\<open>self.dataset\<close> (\<open>None\<close>: no exception);
  \<^item> \<open>glob\<close>: \<^verbatim>\<open>data_dir.glob(pattern)\<close>, in the order the file system gives;
  \<^item> \<open>image_open\<close>: \<^verbatim>\<open>Image.open(path)\<close>;
  \<^item> \<open>np_array\<close>: \<^verbatim>\<open>np.array(image, dtype=...)\<close>;
  \<^item> \<open>np_result_type\<close>: the dtype numpy gives to a stack of arrays of these dtypes;
  \<^item> \<open>view_c_contiguous a i j\<close>: the flag \<^verbatim>\<open>C_CONTIGUOUS\<close> of the view \<^verbatim>\<open>a[i:j]\<close>;
  \<^item> \<open>ascontiguousarray\<close>: \<^verbatim>\<open>np.ascontiguousarray\<close>.
\<close>

record ('img, 'p) env =
  parse_bossdb_uri :: "string \<Rightarrow> exn + url_bits"
  py_float :: "int \<Rightarrow> real"
  validate_datatype :: "dtype_value option \<Rightarrow> exn + string"
  bossdb_exists :: "('img, 'p) trace \<Rightarrow> string \<Rightarrow> exn + bool"
  get_project :: "('img, 'p) trace \<Rightarrow> resource \<Rightarrow> exn + resource"
  create_project :: "('img, 'p) trace \<Rightarrow> resource \<Rightarrow> exn + resource"
  write_cutout :: "('img, 'p) trace \<Rightarrow> 'p cutout \<Rightarrow> exn option"
  glob :: "('img, 'p) trace \<Rightarrow> string \<Rightarrow> string \<Rightarrow> string list"
  image_open :: "('img, 'p) trace \<Rightarrow> string \<Rightarrow> exn + 'img"
  np_array :: "'img \<Rightarrow> dtype_value option \<Rightarrow> exn + 'p plane"
  np_result_type :: "string list \<Rightarrow> string"
  view_c_contiguous :: "'p ndarray \<Rightarrow> int \<Rightarrow> int \<Rightarrow> bool"
  ascontiguousarray :: "'p ndarray \<Rightarrow> 'p ndarray"

subsection \<open>The object\<close>

text \<open>
  The arguments of \<^verbatim>\<open>__init__\<close>, typed as annotated: \<^verbatim>\<open>Optional\<close> arguments are
  options, Python's integers are \<open>int\<close>. \<^verbatim>\<open>overwrite\<close> is read for its truth value only
  and is a \<open>bool\<close>. \<^verbatim>\<open>data_dir\<close> is the path object whose \<^verbatim>\<open>glob\<close> the code calls;
  a path is its string. The voxel sizes are integers,
  as annotated; the object holds their conversions by \<^verbatim>\<open>float\<close>.
\<close>

record 'p init_args =
  a_url :: string
  a_data_dir :: string
  a_voxel_size :: "int \<times> int \<times> int"
  a_voxel_units :: string
  a_shape_zyx :: "int \<times> int \<times> int"
  a_resolution :: int
  a_raw_data :: "'p ndarray option"
  a_data_extension :: "string option"
  a_upload_increment :: "int option"
  a_retry_max :: "int option"
  a_dtype :: "string option"
  a_overwrite :: bool

text \<open>
  The attributes of an instance; the leading underscore of the private ones is dropped,
  and \<^verbatim>\<open>self._resources\<close> is \<open>resources_cache\<close> (\<open>None\<close>: the empty dictionary).
  \<^verbatim>\<open>_image_paths\<close> and \<^verbatim>\<open>_dtype\<close> are assigned last, so they may be unset.
\<close>

record 'p BossDBUpload =
  url :: string
  bits :: url_bits
  data_dir :: string
  voxel_size :: "real \<times> real \<times> real"
  voxel_units :: string
  shape_zyx :: "int \<times> int \<times> int"
  resolution :: int
  raw_data :: "'p ndarray option"
  data_extension :: "string option"
  upload_increment :: "int option"
  retry_max :: "int option"
  overwrite :: bool
  description :: string
  resources_cache :: "resources_dict option"
  url_exists :: bool
  image_paths :: "string list attr"
  dtype :: "dtype_value option attr"

subsection \<open>\<^verbatim>\<open>_get_or_create\<close>\<close>

definition get_or_create ::
  "('img, 'p) env \<Rightarrow> resource \<Rightarrow> ('img, 'p) trace \<Rightarrow> (exn + resource) \<times> ('img, 'p) trace" where
  "get_or_create E obj tr =
     (case get_project E tr obj of
        Inr result \<Rightarrow> (Inr result, tr @ [GetProject obj (Inr result)])
      | Inl e \<Rightarrow>
          (let tr1 = tr @ [GetProject obj (Inl e)]
           in if is_HTTPError e
              then (let r = create_project E tr1 obj in (r, tr1 @ [CreateProject obj r]))
              else (Inl e, tr1)))"

subsection \<open>The property \<^verbatim>\<open>resources\<close>\<close>

text \<open>The components of a ZYX triple: \<^verbatim>\<open>t[0]\<close>, \<^verbatim>\<open>t[1]\<close>, \<^verbatim>\<open>t[2]\<close>.\<close>

fun idx0 :: "'a \<times> 'a \<times> 'a \<Rightarrow> 'a" where
  "idx0 (z, y, x) = z"

fun idx1 :: "'a \<times> 'a \<times> 'a \<Rightarrow> 'a" where
  "idx1 (z, y, x) = y"

fun idx2 :: "'a \<times> 'a \<times> 'a \<Rightarrow> 'a" where
  "idx2 (z, y, x) = x"

text \<open>
  The property fills the dictionary when it is empty and returns it. Filling it builds
  the five descriptors in the order of the keys. The first channel descriptor reads
  \<^verbatim>\<open>self._dtype\<close>, which raises \<^verbatim>\<open>AttributeError\<close> while the attribute is unset, and
  passes it to the constructor of \<^verbatim>\<open>ChannelResource\<close>, which may refuse it; the second
  channel descriptor passes the same value. The result is the dictionary and the object
  with its cache.
\<close>

definition resources ::
  "('img, 'p) env \<Rightarrow> 'p BossDBUpload \<Rightarrow> exn + resources_dict \<times> 'p BossDBUpload" where
  "resources E self =
     (let coord_name = ''CF_'' @ ub_collection (bits self) @ ''_'' @ ub_experiment (bits self)
      in case resources_cache self of
           Some rs \<Rightarrow> Inr (rs, self)
         | None \<Rightarrow>
             (case dtype self of
                Unset \<Rightarrow> Inl (AttributeError ''_dtype'')
              | Assigned dt \<Rightarrow>
             (case validate_datatype E dt of
                Inl e \<Rightarrow> Inl e
              | Inr datatype \<Rightarrow>
                  (let rs =
                     \<lparr> r_collection =
                         \<lparr> col_name = ub_collection (bits self),
                           col_description = description self \<rparr>,
                       r_coord_frame =
                         \<lparr> cf_name = coord_name,
                           cf_description = description self,
                           x_start = 0,
                           x_stop = idx2 (shape_zyx self),
                           y_start = 0,
                           y_stop = idx1 (shape_zyx self),
                           z_start = 0,
                           z_stop = idx0 (shape_zyx self),
                           x_voxel_size = idx2 (voxel_size self),
                           y_voxel_size = idx1 (voxel_size self),
                           z_voxel_size = idx0 (voxel_size self) \<rparr>,
                       r_experiment =
                         \<lparr> exp_name = ub_experiment (bits self),
                           exp_collection_name = ub_collection (bits self),
                           exp_coord_frame = coord_name,
                           exp_description = description self \<rparr>,
                       r_channel_resource =
                         \<lparr> ch_name = ub_channel (bits self),
                           ch_collection_name = ub_collection (bits self),
                           ch_experiment_name = ub_experiment (bits self),
                           ch_type = ''image'',
                           ch_description = description self,
                           ch_datatype = datatype,
                           ch_sources = None \<rparr>,
                       r_channel =
                         \<lparr> ch_name = ub_channel (bits self),
                           ch_collection_name = ub_collection (bits self),
                           ch_experiment_name = ub_experiment (bits self),
                           ch_type = ''image'',
                           ch_description = description self,
                           ch_datatype = datatype,
                           ch_sources = Some [] \<rparr> \<rparr>
                   in Inr (rs, self\<lparr>resources_cache := Some rs\<rparr>)))))"

subsection \<open>\<^verbatim>\<open>try_create_new\<close>\<close>

text \<open>
  Every \<^verbatim>\<open>self.resources[...]\<close> evaluates the property. The two assignments
  \<^verbatim>\<open>experiment.coord_frame = ...\<close> and \<^verbatim>\<open>channel.sources = ...\<close> change the objects
  held by the dictionary, so the cache is updated with them. When an exception leaves the
  method, the object is given up with it. The client \<^verbatim>\<open>BossRemote()\<close> is taken to be
  constructed without an error; its two methods are in \<open>env\<close>.
\<close>

definition try_create_new ::
  "('img, 'p) env \<Rightarrow> 'p BossDBUpload \<Rightarrow> ('img, 'p) trace
     \<Rightarrow> (exn + 'p BossDBUpload) \<times> ('img, 'p) trace" where
  "try_create_new E self tr =
     (case resources E self of
        Inl e \<Rightarrow> (Inl e, tr)
      | Inr (rs1, self1) \<Rightarrow>
     (case get_or_create E (Collection (r_collection rs1)) tr of
        (Inl e, tr1) \<Rightarrow> (Inl e, tr1)
      | (Inr u, tr1) \<Rightarrow>
     (case resources E self1 of
        Inl e \<Rightarrow> (Inl e, tr1)
      | Inr (rs2, self2) \<Rightarrow>
     (case get_or_create E (CoordinateFrame (r_coord_frame rs2)) tr1 of
        (Inl e, tr2) \<Rightarrow> (Inl e, tr2)
      | (Inr true_coord_frame, tr2) \<Rightarrow>
     (case resources E self2 of
        Inl e \<Rightarrow> (Inl e, tr2)
      | Inr (rs3, self3) \<Rightarrow>
     (let experiment = (r_experiment rs3)\<lparr>exp_coord_frame := resource_name true_coord_frame\<rparr>;
          self4 = self3\<lparr>resources_cache := Some (rs3\<lparr>r_experiment := experiment\<rparr>)\<rparr>
      in
     (case get_or_create E (Experiment experiment) tr2 of
        (Inl e, tr3) \<Rightarrow> (Inl e, tr3)
      | (Inr u, tr3) \<Rightarrow>
     (case resources E self4 of
        Inl e \<Rightarrow> (Inl e, tr3)
      | Inr (rs4, self5) \<Rightarrow>
     (case get_or_create E (Channel (r_channel_resource rs4)) tr3 of
        (Inl e, tr4) \<Rightarrow> (Inl e, tr4)
      | (Inr channel_resource, tr4) \<Rightarrow>
     (case resources E self5 of
        Inl e \<Rightarrow> (Inl e, tr4)
      | Inr (rs5, self6) \<Rightarrow>
     (let channel = (r_channel rs5)\<lparr>ch_sources := Some [resource_name channel_resource]\<rparr>;
          self7 = self6\<lparr>resources_cache := Some (rs5\<lparr>r_channel := channel\<rparr>)\<rparr>
      in
     (case get_or_create E (Channel channel) tr4 of
        (Inl e, tr5) \<Rightarrow> (Inl e, tr5)
      | (Inr u, tr5) \<Rightarrow> (Inr self7, tr5)))))))))))))"

subsection \<open>\<^verbatim>\<open>fetch_images\<close> and \<^verbatim>\<open>__init__\<close>\<close>

definition fetch_images ::
  "('img, 'p) env \<Rightarrow> 'p BossDBUpload \<Rightarrow> ('img, 'p) trace
     \<Rightarrow> (exn + string list) \<times> ('img, 'p) trace" where
  "fetch_images E self tr =
     (case data_extension self of
        None \<Rightarrow> (Inl (TypeError ''can only concatenate str to str''), tr)
      | Some ext \<Rightarrow>
          (let listing = glob E tr (data_dir self) (''*'' @ ext);
               tr1 = tr @ [Glob (data_dir self) (''*'' @ ext) listing];
               image_paths = sort listing
           in if image_paths = []
              then (Inl (DataJointError
                      (''No files found in the specified directory ''
                         @ data_dir self @ ''/*'' @ ext @ ''.'')), tr1)
              else (Inr image_paths, tr1)))"

text \<open>\<^verbatim>\<open>dtype or None\<close> and \<^verbatim>\<open>dtype or self._raw_data.dtype\<close>: the empty string is falsy.\<close>

definition dtype_or :: "string option \<Rightarrow> dtype_value option \<Rightarrow> dtype_value option" where
  "dtype_or d other =
     (case d of None \<Rightarrow> other | Some s \<Rightarrow> if s = [] then other else Some (DtypeStr s))"

text \<open>
  The constructor. The plain attributes are assigned first (none of these assignments
  can fail on arguments of the annotated types), so the object is built in one step once
  \<^verbatim>\<open>url_exists\<close> is known. The \<^verbatim>\<open>return\<close> of the overwrite guard gives back an object
  whose \<^verbatim>\<open>_image_paths\<close> and \<^verbatim>\<open>_dtype\<close> are unset.
\<close>

definition init ::
  "('img, 'p) env \<Rightarrow> 'p init_args \<Rightarrow> ('img, 'p) trace
     \<Rightarrow> (exn + 'p BossDBUpload) \<times> ('img, 'p) trace" where
  "init E a tr =
     (case parse_bossdb_uri E (a_url a) of
        Inl e \<Rightarrow> (Inl e, tr)
      | Inr ub \<Rightarrow>
     (let ex = bossdb_exists E tr (a_url a);
          tr1 = tr @ [Exists (a_url a) ex]
      in
     (case ex of
        Inl e \<Rightarrow> (Inl e, tr1)
      | Inr found \<Rightarrow>
     (let self =
        \<lparr> url = a_url a,
          bits = ub,
          data_dir = a_data_dir a,
          voxel_size = (py_float E (idx0 (a_voxel_size a)),
                        py_float E (idx1 (a_voxel_size a)),
                        py_float E (idx2 (a_voxel_size a))),
          voxel_units = a_voxel_units a,
          shape_zyx = a_shape_zyx a,
          resolution = a_resolution a,
          raw_data = a_raw_data a,
          data_extension = a_data_extension a,
          upload_increment = a_upload_increment a,
          retry_max = a_retry_max a,
          overwrite = a_overwrite a,
          description = ''Uploaded via DataJoint'',
          resources_cache = None,
          url_exists = found,
          image_paths = Unset,
          dtype = Unset \<rparr>
      in
        if \<not> a_overwrite a \<and> url_exists self then (Inr self, tr1)
        else
     (case (if \<not> url_exists self then try_create_new E self tr1 else (Inr self, tr1)) of
        (Inl e, tr2) \<Rightarrow> (Inl e, tr2)
      | (Inr self2, tr2) \<Rightarrow>
     (case raw_data self2 of
        None \<Rightarrow>
          (case fetch_images E self2 tr2 of
             (Inl e, tr3) \<Rightarrow> (Inl e, tr3)
           | (Inr paths, tr3) \<Rightarrow>
               (Inr (self2\<lparr>image_paths := Assigned paths,
                            dtype := Assigned (dtype_or (a_dtype a) None)\<rparr>), tr3))
      | Some arr \<Rightarrow>
          (Inr (self2\<lparr>dtype := Assigned (dtype_or (a_dtype a) (Some (DtypeNp (np_dtype arr))))\<rparr>),
           tr2)))))))"

subsection \<open>The slabs of \<^verbatim>\<open>upload\<close>\<close>

text \<open>
  \<^verbatim>\<open>range(start, stop, step)\<close>: the values \<open>start\<close>, \<open>start + step\<close>, ... before
  \<open>stop\<close>; a step of zero raises \<^verbatim>\<open>ValueError\<close>.
\<close>

function range_from :: "int \<Rightarrow> int \<Rightarrow> int \<Rightarrow> int list" where
  "range_from i stop step =
     (if (0 < step \<and> i < stop) \<or> (step < 0 \<and> stop < i)
      then i # range_from (i + step) stop step
      else [])"
  by pat_completeness auto
termination
  by (relation "measure (\<lambda>(i, stop, step). nat (if 0 < step then stop - i else i - stop))")
     auto

definition py_range :: "int \<Rightarrow> int \<Rightarrow> int \<Rightarrow> exn + int list" where
  "py_range start stop step =
     (if step = 0 then Inl (ValueError ''range() arg 3 must not be zero'')
      else Inr (range_from start stop step))"

subsection \<open>The volume source\<close>

text \<open>\<^verbatim>\<open>[Image.open(path) for path in ...]\<close>: the files are opened in order.\<close>

fun open_images ::
  "('img, 'p) env \<Rightarrow> string list \<Rightarrow> ('img, 'p) trace
     \<Rightarrow> (exn + 'img list) \<times> ('img, 'p) trace" where
  "open_images E [] tr = (Inr [], tr)"
| "open_images E (path # paths) tr =
     (let r = image_open E tr path;
          tr1 = tr @ [ImageOpen path r]
      in case r of
           Inl e \<Rightarrow> (Inl e, tr1)
         | Inr img \<Rightarrow>
             (case open_images E paths tr1 of
                (Inl e, tr2) \<Rightarrow> (Inl e, tr2)
              | (Inr imgs, tr2) \<Rightarrow> (Inr (img # imgs), tr2)))"

text \<open>\<^verbatim>\<open>[np.array(image, dtype=self._dtype) for image in ...]\<close>.\<close>

fun convert_images ::
  "('img, 'p) env \<Rightarrow> 'p BossDBUpload \<Rightarrow> 'img list \<Rightarrow> exn + 'p plane list" where
  "convert_images E self [] = Inr []"
| "convert_images E self (img # imgs) =
     (case dtype self of
        Unset \<Rightarrow> Inl (AttributeError ''_dtype'')
      | Assigned dt \<Rightarrow>
          (case np_array E img dt of
             Inl e \<Rightarrow> Inl e
           | Inr p \<Rightarrow>
               (case convert_images E self imgs of
                  Inl e \<Rightarrow> Inl e
                | Inr ps \<Rightarrow> Inr (p # ps))))"

text \<open>
  \<^verbatim>\<open>np.stack(arrays, axis=0)\<close>: it wants at least one array and equal shapes, and makes
  a new array, which is C-contiguous.
\<close>

definition np_stack :: "('img, 'p) env \<Rightarrow> 'p plane list \<Rightarrow> exn + 'p ndarray" where
  "np_stack E ps =
     (case ps of
        [] \<Rightarrow> Inl (ValueError ''need at least one array to stack'')
      | p # qs \<Rightarrow>
          if list_all (\<lambda>q. rows q = rows p \<and> cols q = cols p) qs
          then Inr \<lparr> planes = map pixels ps,
                     dim_y = rows p,
                     dim_x = cols p,
                     np_dtype = np_result_type E (map pl_dtype ps),
                     c_contiguous = True \<rparr>
          else Inl (ValueError ''all input arrays must have the same shape''))"

definition np_from_images ::
  "('img, 'p) env \<Rightarrow> 'p BossDBUpload \<Rightarrow> int \<Rightarrow> int \<Rightarrow> ('img, 'p) trace
     \<Rightarrow> (exn + 'p ndarray) \<times> ('img, 'p) trace" where
  "np_from_images E self i z_limit tr =
     (case image_paths self of
        Unset \<Rightarrow> (Inl (AttributeError ''_image_paths''), tr)
      | Assigned paths \<Rightarrow>
          (case open_images E (py_slice paths i z_limit) tr of
             (Inl e, tr1) \<Rightarrow> (Inl e, tr1)
           | (Inr imgs, tr1) \<Rightarrow>
               (case convert_images E self imgs of
                  Inl e \<Rightarrow> (Inl e, tr1)
                | Inr ps \<Rightarrow> (np_stack E ps, tr1))))"

text \<open>
  The conditional expression that gives \<^verbatim>\<open>stack\<close>: the view \<^verbatim>\<open>self._raw_data[i:z_limit]\<close>
  of the array in memory, or the images of that range.
\<close>

definition get_stack ::
  "('img, 'p) env \<Rightarrow> 'p BossDBUpload \<Rightarrow> int \<Rightarrow> int \<Rightarrow> ('img, 'p) trace
     \<Rightarrow> (exn + 'p ndarray) \<times> ('img, 'p) trace" where
  "get_stack E self i z_limit tr =
     (case raw_data self of
        Some arr \<Rightarrow>
          (Inr (arr\<lparr>planes := py_slice (planes arr) i z_limit,
                    c_contiguous := view_c_contiguous E arr i z_limit\<rparr>), tr)
      | None \<Rightarrow> np_from_images E self i z_limit tr)"

text \<open>\<^verbatim>\<open>if not stack.flags["C_CONTIGUOUS"]: stack = np.ascontiguousarray(stack)\<close>.\<close>

definition normalize :: "('img, 'p) env \<Rightarrow> 'p ndarray \<Rightarrow> 'p ndarray" where
  "normalize E stack = (if \<not> c_contiguous stack then ascontiguousarray E stack else stack)"

subsection \<open>The write and its retries\<close>

text \<open>The property \<^verbatim>\<open>dataset\<close>; it reads \<^verbatim>\<open>self._dtype\<close>.\<close>

definition dataset :: "'p BossDBUpload \<Rightarrow> exn + dataset_args" where
  "dataset self =
     (case dtype self of
        Unset \<Rightarrow> Inl (AttributeError ''_dtype'')
      | Assigned dt \<Rightarrow>
          Inr \<lparr> ds_url = url self,
                ds_extents = shape_zyx self,
                ds_dtype = dt,
                ds_resolution = resolution self,
                ds_voxel_size = voxel_size self,
                ds_voxel_unit = voxel_units self,
                ds_create_new = True,
                ds_source_channel = ub_channel (bits self) \<rparr>)"

text \<open>The address and the buffer of the assignment in the \<^verbatim>\<open>try\<close> block.\<close>

definition cutout_of :: "dataset_args \<Rightarrow> int \<Rightarrow> 'p ndarray \<Rightarrow> 'p cutout" where
  "cutout_of ds i stack =
     \<lparr> c_dataset = ds,
       z_range = (i, i + int (length (planes stack))),
       y_range = (0, int (dim_y stack)),
       x_range = (0, int (dim_x stack)),
       buffer = stack \<rparr>"

text \<open>
  The body of the \<^verbatim>\<open>try\<close> block: \<open>None\<close> when the assignment went through, otherwise
  the exception the handler \<^verbatim>\<open>except Exception as e\<close> receives.
\<close>

definition write_stack ::
  "('img, 'p) env \<Rightarrow> 'p BossDBUpload \<Rightarrow> int \<Rightarrow> 'p ndarray \<Rightarrow> ('img, 'p) trace
     \<Rightarrow> exn option \<times> ('img, 'p) trace" where
  "write_stack E self i stack tr =
     (case dataset self of
        Inl e \<Rightarrow> (Some e, tr)
      | Inr ds \<Rightarrow>
          (let r = write_cutout E tr (cutout_of ds i stack)
           in (r, tr @ [WriteCutout (cutout_of ds i stack) r])))"

text \<open>
  The loop \<^verbatim>\<open>while True\<close>, entered with \<^verbatim>\<open>retry_count\<close>. The comparison with a
  \<^verbatim>\<open>retry_max\<close> of \<^verbatim>\<open>None\<close> raises \<^verbatim>\<open>TypeError\<close> inside the handler.
\<close>

function write_loop ::
  "('img, 'p) env \<Rightarrow> 'p BossDBUpload \<Rightarrow> int \<Rightarrow> 'p ndarray \<Rightarrow> int \<Rightarrow> ('img, 'p) trace
     \<Rightarrow> (exn + unit) \<times> ('img, 'p) trace" where
  "write_loop E self i stack retry_count tr =
     (case write_stack E self i stack tr of
        (None, tr1) \<Rightarrow> (Inr (), tr1)
      | (Some e, tr1) \<Rightarrow>
          (case retry_max self of
             None \<Rightarrow> (Inl (TypeError ''> not supported between int and NoneType''), tr1)
           | Some m \<Rightarrow>
               if retry_count + 1 > m then (Inl e, tr1)
               else write_loop E self i stack (retry_count + 1) tr1))"
  by pat_completeness auto
termination
  by (relation "measure (\<lambda>(E, self, i, stack, retry_count, tr).
                  nat (case retry_max self of None \<Rightarrow> 0 | Some m \<Rightarrow> m - retry_count))")
     auto

subsection \<open>\<^verbatim>\<open>upload\<close>\<close>

text \<open>The body of the \<^verbatim>\<open>for\<close> loop, over the values the range still has to give.\<close>

fun upload_loop ::
  "('img, 'p) env \<Rightarrow> 'p BossDBUpload \<Rightarrow> int \<Rightarrow> int \<Rightarrow> int list \<Rightarrow> ('img, 'p) trace
     \<Rightarrow> (exn + unit) \<times> ('img, 'p) trace" where
  "upload_loop E self z_max inc [] tr = (Inr (), tr)"
| "upload_loop E self z_max inc (i # rest) tr =
     (let z_limit = min (i + inc) z_max
      in case get_stack E self i z_limit tr of
           (Inl e, tr1) \<Rightarrow> (Inl e, tr1)
         | (Inr stack, tr1) \<Rightarrow>
             (case write_loop E self i (normalize E stack) 0 tr1 of
                (Inl e, tr2) \<Rightarrow> (Inl e, tr2)
              | (Inr u, tr2) \<Rightarrow> upload_loop E self z_max inc rest tr2))"

definition upload ::
  "('img, 'p) env \<Rightarrow> 'p BossDBUpload \<Rightarrow> ('img, 'p) trace
     \<Rightarrow> (exn + unit) \<times> ('img, 'p) trace" where
  "upload E self tr =
     (let z_max = idx0 (shape_zyx self)
      in case upload_increment self of
           None \<Rightarrow> (Inl (TypeError ''NoneType object cannot be interpreted as an integer''), tr)
         | Some inc \<Rightarrow>
             (case py_range 0 z_max inc of
                Inl e \<Rightarrow> (Inl e, tr)
              | Inr starts \<Rightarrow> upload_loop E self z_max inc starts tr))"

subsection \<open>Reading a trace\<close>

text \<open>
  The events of one successful \<^verbatim>\<open>_get_or_create\<close> of the descriptor \<open>d\<close> with the
  result \<open>r\<close>: the fetch gave \<open>r\<close>, or the fetch raised an \<^verbatim>\<open>HTTPError\<close> and the
  creation gave \<open>r\<close>.
\<close>

fun confirmed_by :: "resource \<Rightarrow> resource \<Rightarrow> ('img, 'p) trace \<Rightarrow> bool" where
  "confirmed_by d r [GetProject d1 (Inr r1)] = (d1 = d \<and> r1 = r)"
| "confirmed_by d r [GetProject d1 (Inl e), CreateProject d2 (Inr r2)] =
     (d1 = d \<and> d2 = d \<and> r2 = r \<and> is_HTTPError e)"
| "confirmed_by d r evs = False"

text \<open>The cutouts whose write went through, in the order of the trace.\<close>

fun written :: "('img, 'p) trace \<Rightarrow> 'p cutout list" where
  "written [] = []"
| "written (WriteCutout c None # evs) = c # written evs"
| "written (ev # evs) = written evs"

text \<open>The cutouts of all write attempts, in the order of the trace.\<close>

fun attempted :: "('img, 'p) trace \<Rightarrow> 'p cutout list" where
  "attempted [] = []"
| "attempted (WriteCutout c r # evs) = c # attempted evs"
| "attempted (ev # evs) = attempted evs"

text \<open>
  The writer answers the successive attempts at the cutout \<open>c\<close>, from the trace \<open>tr\<close>
  on, with the errors \<open>es\<close> and then with success.
\<close>

fun fails_then_succeeds ::
  "('img, 'p) env \<Rightarrow> 'p cutout \<Rightarrow> ('img, 'p) trace \<Rightarrow> exn list \<Rightarrow> bool" where
  "fails_then_succeeds E c tr [] = (write_cutout E tr c = None)"
| "fails_then_succeeds E c tr (e # es) =
     (write_cutout E tr c = Some e
      \<and> fails_then_succeeds E c (tr @ [WriteCutout c (Some e)]) es)"

text \<open>The number of slices the volume source holds.\<close>

definition source_len :: "'p BossDBUpload \<Rightarrow> nat" where
  "source_len self =
     (case raw_data self of
        Some arr \<Rightarrow> length (planes arr)
      | None \<Rightarrow> (case image_paths self of Unset \<Rightarrow> 0 | Assigned paths \<Rightarrow> length paths))"

text \<open>
  What numpy documents of \<^verbatim>\<open>np.ascontiguousarray\<close>: the result is C-contiguous and has
  the shape and the elements of its argument.
\<close>

definition ascontiguousarray_contract :: "('img, 'p) env \<Rightarrow> bool" where
  "ascontiguousarray_contract E =
     (\<forall>a. c_contiguous (ascontiguousarray E a)
          \<and> planes (ascontiguousarray E a) = planes a
          \<and> dim_y (ascontiguousarray E a) = dim_y a
          \<and> dim_x (ascontiguousarray E a) = dim_x a)"

text \<open>
  The address of a cutout is read off its buffer: the depth range ends at its start
  plus the number of planes of the buffer, and the other two ranges are the extents of
  the buffer.
\<close>

definition address_of_buffer :: "'p cutout \<Rightarrow> bool" where
  "address_of_buffer c =
     (snd (z_range c) = fst (z_range c) + int (length (planes (buffer c)))
      \<and> y_range c = (0, int (dim_y (buffer c)))
      \<and> x_range c = (0, int (dim_x (buffer c))))"

text \<open>
  The buffer of a cutout comes from the volume source: at some moment \<open>take n whole\<close>
  of the trace \<open>whole\<close>, the volume source gave the slab that starts at the start of
  the cutout and ends at \<^verbatim>\<open>min(i + inc, z_max)\<close>, what it added to the trace is in
  \<open>whole\<close>, and the buffer is the normalized form of that slab.
\<close>

definition from_source ::
  "('img, 'p) env \<Rightarrow> 'p BossDBUpload \<Rightarrow> int \<Rightarrow> int \<Rightarrow> ('img, 'p) trace \<Rightarrow> 'p cutout
     \<Rightarrow> bool" where
  "from_source E self z_max inc whole c =
     list_ex
       (\<lambda>n. case get_stack E self (fst (z_range c)) (min (fst (z_range c) + inc) z_max)
                   (take n whole) of
               (Inl e, h) \<Rightarrow> False
             | (Inr stack, h) \<Rightarrow> take (length h) whole = h \<and> buffer c = normalize E stack)
       [0 ..< Suc (length whole)]"

subsection \<open>Concrete worlds and sessions\<close>

text \<open>
  A world in which the destination exists, every remote call succeeds, a fetch confirms
  a coordinate frame under the name \<open>CF_shared\<close> and every other descriptor as it is,
  the directory holds no file, and a plane is a number.
\<close>

definition confirm :: "resource \<Rightarrow> resource" where
  "confirm d =
     (case d of
        CoordinateFrame f \<Rightarrow> CoordinateFrame (f\<lparr>cf_name := ''CF_shared''\<rparr>)
      | Collection c \<Rightarrow> d
      | Experiment x \<Rightarrow> d
      | Channel c \<Rightarrow> d)"

text \<open>
  \<^verbatim>\<open>float(i)\<close> of these worlds, for an integer within the range of a double: the number
  itself up to \<open>2 ^ 53\<close> in absolute value; beyond, its 53 leading bits, rounded to
  nearest with ties to even.
\<close>

fun bit_length :: "nat \<Rightarrow> nat" where
  "bit_length n = (if n = 0 then 0 else Suc (bit_length (n div 2)))"

definition double_of_int :: "int \<Rightarrow> real" where
  "double_of_int i =
     (if \<bar>i\<bar> \<le> 2 ^ 53 then real_of_int i
      else (let n = nat \<bar>i\<bar>;
                e = bit_length n - 53;
                q = n div 2 ^ e;
                r = n mod 2 ^ e;
                q1 = (if 2 ^ e < 2 * r \<or> (2 * r = 2 ^ e \<and> odd q) then q + 1 else q)
            in if i < 0 then - real (q1 * 2 ^ e) else real (q1 * 2 ^ e)))"

text \<open>
  The constructor of \<^verbatim>\<open>ChannelResource\<close> of these worlds: it stores the name of one of
  three data types, and raises for another name, for a numpy dtype object and for
  \<^verbatim>\<open>None\<close>.
\<close>

definition known_datatype :: "dtype_value option \<Rightarrow> exn + string" where
  "known_datatype d =
     (case d of
        None \<Rightarrow> Inl (AttributeError ''lower'')
      | Some (DtypeNp n) \<Rightarrow> Inl (AttributeError ''lower'')
      | Some (DtypeStr s) \<Rightarrow>
          if s = ''uint8'' \<or> s = ''uint16'' \<or> s = ''uint64'' then Inr s
          else Inl (ValueError (s @ '' is not a valid data type.'')))"

definition world :: "(nat, nat) env" where
  "world =
     \<lparr> parse_bossdb_uri =
         (\<lambda>u. Inr \<lparr> ub_collection = ''col'', ub_experiment = ''exp'', ub_channel = ''chn'' \<rparr>),
       py_float = double_of_int,
       validate_datatype = known_datatype,
       bossdb_exists = (\<lambda>tr u. Inr True),
       get_project = (\<lambda>tr d. Inr (confirm d)),
       create_project = (\<lambda>tr d. Inr d),
       write_cutout = (\<lambda>tr c. None),
       glob = (\<lambda>tr d p. []),
       image_open = (\<lambda>tr p. Inr 0),
       np_array = (\<lambda>i dt. Inr \<lparr> pixels = i, rows = 2, cols = 3, pl_dtype = ''uint8'' \<rparr>),
       np_result_type = (\<lambda>ds. ''uint8''),
       view_c_contiguous = (\<lambda>a i j. c_contiguous a),
       ascontiguousarray = (\<lambda>a. a\<lparr>c_contiguous := True\<rparr>) \<rparr>"

text \<open>The same world with a destination that does not exist yet.\<close>

definition world_absent :: "(nat, nat) env" where
  "world_absent = world\<lparr>bossdb_exists := (\<lambda>tr u. Inr False)\<rparr>"

text \<open>Worlds whose fetch fails: with a server error, and without any response.\<close>

definition world_http500 :: "(nat, nat) env" where
  "world_http500 = world\<lparr>get_project := (\<lambda>tr d. Inl (HTTPError 500))\<rparr>"

definition world_offline :: "(nat, nat) env" where
  "world_offline = world\<lparr>get_project := (\<lambda>tr d. Inl ConnectionError)\<rparr>"

text \<open>A world whose writer refuses every cutout that starts at depth 2.\<close>

definition world_refusing :: "(nat, nat) env" where
  "world_refusing =
     world\<lparr>write_cutout :=
             (\<lambda>tr c. if fst (z_range c) = 2 then Some (HTTPError 400) else None)\<rparr>"

text \<open>A world whose writer refuses the first two attempts and then accepts.\<close>

definition world_flaky :: "(nat, nat) env" where
  "world_flaky =
     world\<lparr>write_cutout := (\<lambda>tr c. if length tr < 2 then Some (HTTPError 503) else None)\<rparr>"

text \<open>
  Sessions: a volume of five planes of 2 x 3 voxels, held in memory in a layout that
  is not C-contiguous, uploaded two planes at a time with the dtype \<^verbatim>\<open>'uint16'\<close> given
  by the caller; and the same with a file source.
\<close>

definition volume :: "nat ndarray" where
  "volume = \<lparr> planes = [10, 11, 12, 13, 14], dim_y = 2, dim_x = 3,
              np_dtype = ''uint16'', c_contiguous = False \<rparr>"

definition session :: "nat init_args" where
  "session =
     \<lparr> a_url = ''bossdb://col/exp/chn'',
       a_data_dir = ''/data'',
       a_voxel_size = (4, 1, 1),
       a_voxel_units = ''micrometers'',
       a_shape_zyx = (5, 2, 3),
       a_resolution = 0,
       a_raw_data = Some volume,
       a_data_extension = Some [],
       a_upload_increment = Some 2,
       a_retry_max = Some 3,
       a_dtype = Some ''uint16'',
       a_overwrite = True \<rparr>"

definition session_files :: "nat init_args" where
  "session_files = session\<lparr>a_raw_data := None, a_data_extension := Some ''.tif''\<rparr>"

text \<open>The object the constructor gives for \<open>session\<close> in \<open>world\<close>.\<close>

definition uploader :: "nat BossDBUpload" where
  "uploader =
     \<lparr> url = ''bossdb://col/exp/chn'',
       bits = \<lparr> ub_collection = ''col'', ub_experiment = ''exp'', ub_channel = ''chn'' \<rparr>,
       data_dir = ''/data'',
       voxel_size = (4, 1, 1),
       voxel_units = ''micrometers'',
       shape_zyx = (5, 2, 3),
       resolution = 0,
       raw_data = Some volume,
       data_extension = Some [],
       upload_increment = Some 2,
       retry_max = Some 3,
       overwrite = True,
       description = ''Uploaded via DataJoint'',
       resources_cache = None,
       url_exists = True,
       image_paths = Unset,
       dtype = Assigned (Some (DtypeStr ''uint16'')) \<rparr>"

text \<open>The same object for the same volume in a C-contiguous layout.\<close>

definition volume_contiguous :: "nat ndarray" where
  "volume_contiguous = volume\<lparr>c_contiguous := True\<rparr>"

definition uploader_contiguous :: "nat BossDBUpload" where
  "uploader_contiguous = uploader\<lparr>raw_data := Some volume_contiguous\<rparr>"

text \<open>The two sessions without the permission to overwrite.\<close>

definition session_keep :: "nat init_args" where
  "session_keep = session\<lparr>a_overwrite := False\<rparr>"

definition session_files_keep :: "nat init_args" where
  "session_files_keep = session_files\<lparr>a_overwrite := False\<rparr>"

text \<open>
  For \<open>uploader\<close>: the dataset of its writes, the view \<^verbatim>\<open>raw_data[i:z]\<close> of its volume,
  and the cutout it writes for that view in \<open>world\<close>.
\<close>

definition uploader_dataset :: dataset_args where
  "uploader_dataset =
     \<lparr> ds_url = ''bossdb://col/exp/chn'',
       ds_extents = (5, 2, 3),
       ds_dtype = Some (DtypeStr ''uint16''),
       ds_resolution = 0,
       ds_voxel_size = (4, 1, 1),
       ds_voxel_unit = ''micrometers'',
       ds_create_new = True,
       ds_source_channel = ''chn'' \<rparr>"

definition view :: "int \<Rightarrow> int \<Rightarrow> nat ndarray" where
  "view i z = volume\<lparr>planes := py_slice (planes volume) i z\<rparr>"

definition slab_cutout :: "int \<Rightarrow> int \<Rightarrow> nat cutout" where
  "slab_cutout i z = cutout_of uploader_dataset i ((view i z)\<lparr>c_contiguous := True\<rparr>)"

text \<open>The collection descriptor of these sessions.\<close>

definition some_collection :: resource where
  "some_collection =
     Collection \<lparr> col_name = ''col'', col_description = ''Uploaded via DataJoint'' \<rparr>"

declare range_from.simps [simp del]

declare write_loop.simps [simp del]

declare bit_length.simps [simp del]

section \<open>Provisioning\<close>

subsection \<open>\<^verbatim>\<open>float\<close> in the concrete worlds\<close>

lemma double_of_int_small [simp]:
  "\<bar>i\<bar> \<le> 2 ^ 53 \<Longrightarrow> double_of_int i = real_of_int i"
  by (simp add: double_of_int_def)

lemma bit_length_numeral:
  "bit_length (numeral k) = Suc (bit_length (numeral k div 2))"
  "bit_length 0 = 0"
  "bit_length (Suc 0) = Suc 0"
  by (subst bit_length.simps, simp add: bit_length.simps)+

lemma double_of_int_rounds:
  "double_of_int 9007199254740993 = 9007199254740992
   \<and> double_of_int 9007199254740995 = 9007199254740996"
  by (simp add: double_of_int_def bit_length_numeral Let_def)

subsection \<open>\<^verbatim>\<open>_get_or_create\<close>\<close>

text \<open>
  C1 (as amended). \<^verbatim>\<open>_get_or_create\<close> fetches once. When the fetch succeeds, its result is
  returned and nothing is created. When the fetch raises an \<^verbatim>\<open>HTTPError\<close>, whatever the
  status of the response (not only "not found"), the resource is created, and the outcome
  of the creation is the outcome of the call. When the fetch raises an exception of any
  other class, that exception leaves the call unchanged, after the one fetch: nothing is
  created and nothing is retried.
\<close>

theorem get_or_create_creates_on_HTTPError:
  "(get_project E tr obj = Inr r \<longrightarrow>
       get_or_create E obj tr = (Inr r, tr @ [GetProject obj (Inr r)]))
   \<and> (get_project E tr obj = Inl e \<and> is_HTTPError e \<longrightarrow>
       get_or_create E obj tr =
         (create_project E (tr @ [GetProject obj (Inl e)]) obj,
          tr @ [GetProject obj (Inl e),
                CreateProject obj (create_project E (tr @ [GetProject obj (Inl e)]) obj)]))
   \<and> (get_project E tr obj = Inl e \<and> \<not> is_HTTPError e \<longrightarrow>
       get_or_create E obj tr = (Inl e, tr @ [GetProject obj (Inl e)]))"
  by (simp add: get_or_create_def Let_def)

theorem get_or_create_creates_on_HTTPError_witness:
  "get_or_create world some_collection [] =
     (Inr some_collection, [GetProject some_collection (Inr some_collection)])
   \<and> get_or_create world_http500 some_collection [] =
     (Inr some_collection,
      [GetProject some_collection (Inl (HTTPError 500)),
       CreateProject some_collection (Inr some_collection)])
   \<and> get_or_create world_offline some_collection [] =
     (Inl ConnectionError, [GetProject some_collection (Inl ConnectionError)])"
  using get_or_create_creates_on_HTTPError
          [of world "[]" some_collection some_collection "HTTPError 500"]
        get_or_create_creates_on_HTTPError
          [of world_http500 "[]" some_collection some_collection "HTTPError 500"]
        get_or_create_creates_on_HTTPError
          [of world_offline "[]" some_collection some_collection ConnectionError]
  by (simp add: world_def world_http500_def world_offline_def some_collection_def confirm_def)

text \<open>
  C1 as stated fails: a fetch that raises the \<^verbatim>\<open>HTTPError\<close> of a response 500, which is
  not a "not found" error, does not leave the call; the resource is created.
\<close>

theorem get_or_create_swallows_http500:
  "get_or_create world_http500 some_collection [] =
     (Inr some_collection,
      [GetProject some_collection (Inl (HTTPError 500)),
       CreateProject some_collection (Inr some_collection)])"
  by (simp add: get_or_create_def world_http500_def world_def Let_def)

subsection \<open>The constructor on a destination that does not exist\<close>

lemma try_create_new_unset:
  "dtype self = Unset \<Longrightarrow> resources_cache self = None \<Longrightarrow>
   try_create_new E self tr = (Inl (AttributeError ''_dtype''), tr)"
  by (simp add: try_create_new_def resources_def Let_def)

lemma init_absent:
  "parse_bossdb_uri E (a_url a) = Inr ub \<Longrightarrow> bossdb_exists E tr (a_url a) = Inr False \<Longrightarrow>
   init E a tr = (Inl (AttributeError ''_dtype''), tr @ [Exists (a_url a) (Inr False)])"
  by (simp add: init_def Let_def try_create_new_unset)

text \<open>
  C6 fails on the code. \<^verbatim>\<open>__init__\<close> calls \<^verbatim>\<open>try_create_new\<close> before it assigns
  \<^verbatim>\<open>self._dtype\<close>, and the property \<^verbatim>\<open>resources\<close> reads that attribute to fill the channel
  descriptors: for a destination that does not exist, the constructor ends with an
  \<^verbatim>\<open>AttributeError\<close> before any descriptor reaches the remote store.
\<close>

theorem init_provisions_before_dtype:
  "init world_absent session [] =
     (Inl (AttributeError ''_dtype''), [Exists ''bossdb://col/exp/chn'' (Inr False)])"
  using init_absent [of world_absent session _ "[]"]
  by (simp add: world_absent_def world_def session_def)

subsection \<open>The overwrite guard\<close>

text \<open>
  An object that left the constructor through the guard has neither \<^verbatim>\<open>_dtype\<close> nor
  \<^verbatim>\<open>_image_paths\<close>; \<^verbatim>\<open>upload\<close> on it reaches no remote call.
\<close>

lemma write_loop_unset:
  "dtype self = Unset \<Longrightarrow> snd (write_loop E self i stack retry_count tr) = tr"
proof (induction E self i stack retry_count tr rule: write_loop.induct)
  case (1 E self i stack retry_count tr)
  have w: "write_stack E self i stack tr = (Some (AttributeError ''_dtype''), tr)"
    using "1.prems" by (simp add: write_stack_def dataset_def)
  show ?case
  proof (cases "retry_max self")
    case None
    then show ?thesis using w by (subst write_loop.simps) simp
  next
    case (Some m)
    show ?thesis
    proof (cases "retry_count + 1 > m")
      case True
      then show ?thesis using w Some by (subst write_loop.simps) simp
    next
      case False
      have "snd (write_loop E self i stack (retry_count + 1) tr) = tr"
        using "1.IH" [OF w [symmetric] refl Some False "1.prems"] .
      then show ?thesis using w Some False by (subst write_loop.simps) simp
    qed
  qed
qed

lemma get_stack_unset:
  "image_paths self = Unset \<Longrightarrow> snd (get_stack E self i z tr) = tr"
  by (simp add: get_stack_def np_from_images_def split: option.splits)

lemma upload_loop_unset:
  "dtype self = Unset \<Longrightarrow> image_paths self = Unset \<Longrightarrow>
   snd (upload_loop E self z_max inc starts tr) = tr"
proof (induction starts arbitrary: tr)
  case Nil
  then show ?case by simp
next
  case (Cons i rest)
  obtain r t where g: "get_stack E self i (min (i + inc) z_max) tr = (r, t)"
    by (cases "get_stack E self i (min (i + inc) z_max) tr")
  have t: "t = tr" using get_stack_unset [OF Cons.prems(2), of E i "min (i + inc) z_max" tr] g by simp
  show ?case
  proof (cases r)
    case (Inl e)
    then show ?thesis using g t by simp
  next
    case (Inr stack)
    obtain r2 t2 where w: "write_loop E self i (normalize E stack) 0 tr = (r2, t2)"
      by (cases "write_loop E self i (normalize E stack) 0 tr")
    have t2: "t2 = tr" using write_loop_unset [OF Cons.prems(1), of E i "normalize E stack" 0 tr] w by simp
    show ?thesis
    proof (cases r2)
      case (Inl e)
      then show ?thesis using g t Inr w t2 by simp
    next
      case (Inr u)
      then show ?thesis using g t \<open>r = Inr stack\<close> w t2 Cons.IH [OF Cons.prems] by simp
    qed
  qed
qed

lemma upload_unset:
  "dtype self = Unset \<Longrightarrow> image_paths self = Unset \<Longrightarrow> snd (upload E self tr) = tr"
  by (simp add: upload_def Let_def upload_loop_unset split: option.splits sum.splits)

lemma fetch_images_trace:
  "\<exists>evs. snd (fetch_images E self tr) = tr @ evs
         \<and> \<not> list_ex is_provisioning evs \<and> \<not> list_ex is_write evs"
  by (simp add: fetch_images_def Let_def split: option.splits)

text \<open>
  C5 (as amended). For a destination that exists: without \<^verbatim>\<open>overwrite\<close> the constructor
  returns early and without an error, after the existence check alone (no provisioning
  call, no write call; and \<^verbatim>\<open>upload\<close> on the object it returns adds no call); with
  \<^verbatim>\<open>overwrite\<close> the constructor makes no provisioning call either, since it provisions
  only a destination that does not exist, but it is not cut short: every object it
  returns has its dtype resolved and, for a file source, its image paths listed.
\<close>

theorem overwrite_guard:
  assumes "parse_bossdb_uri E (a_url a) = Inr ub"
    and "bossdb_exists E tr (a_url a) = Inr True"
  shows "(\<not> a_overwrite a \<longrightarrow>
            (\<exists>self. init E a tr = (Inr self, tr @ [Exists (a_url a) (Inr True)])
                   \<and> (\<forall>t. snd (upload E self t) = t)))
       \<and> (a_overwrite a \<longrightarrow>
            (\<exists>evs. snd (init E a tr) = tr @ Exists (a_url a) (Inr True) # evs
                   \<and> \<not> list_ex is_provisioning evs \<and> \<not> list_ex is_write evs)
            \<and> (\<forall>self. fst (init E a tr) = Inr self \<longrightarrow>
                  dtype self \<noteq> Unset
                  \<and> (a_raw_data a = None \<longrightarrow> image_paths self \<noteq> Unset)))"
proof (intro conjI impI)
  assume no: "\<not> a_overwrite a"
  show "\<exists>self. init E a tr = (Inr self, tr @ [Exists (a_url a) (Inr True)])
                   \<and> (\<forall>t. snd (upload E self t) = t)"
    using assms no by (simp add: init_def Let_def upload_unset)
next
  assume ov: "a_overwrite a"
  show "\<exists>evs. snd (init E a tr) = tr @ Exists (a_url a) (Inr True) # evs
                   \<and> \<not> list_ex is_provisioning evs \<and> \<not> list_ex is_write evs"
  proof (cases "a_raw_data a")
    case None
    let ?s = "\<lparr> url = a_url a,
          bits = ub,
          data_dir = a_data_dir a,
          voxel_size = (py_float E (idx0 (a_voxel_size a)),
                        py_float E (idx1 (a_voxel_size a)),
                        py_float E (idx2 (a_voxel_size a))),
          voxel_units = a_voxel_units a,
          shape_zyx = a_shape_zyx a,
          resolution = a_resolution a,
          raw_data = a_raw_data a,
          data_extension = a_data_extension a,
          upload_increment = a_upload_increment a,
          retry_max = a_retry_max a,
          overwrite = a_overwrite a,
          description = ''Uploaded via DataJoint'',
          resources_cache = None,
          url_exists = True,
          image_paths = Unset,
          dtype = Unset \<rparr>"
    obtain evs where e: "snd (fetch_images E ?s (tr @ [Exists (a_url a) (Inr True)])) = (tr @ [Exists (a_url a) (Inr True)]) @ evs"
      "\<not> list_ex is_provisioning evs" "\<not> list_ex is_write evs"
      using fetch_images_trace by blast
    have "snd (init E a tr) = snd (fetch_images E ?s (tr @ [Exists (a_url a) (Inr True)]))"
      using assms ov None by (simp add: init_def Let_def split: prod.splits sum.splits)
    then show ?thesis using e by simp
  next
    case (Some arr)
    then show ?thesis using assms ov by (simp add: init_def Let_def)
  qed
next
  assume ov: "a_overwrite a"
  show "\<forall>self. fst (init E a tr) = Inr self \<longrightarrow>
                  dtype self \<noteq> Unset
                  \<and> (a_raw_data a = None \<longrightarrow> image_paths self \<noteq> Unset)"
    using assms ov by (auto simp add: init_def Let_def split: option.splits prod.splits sum.splits)
qed

theorem overwrite_guard_witness:
  "(\<exists>self. init world session_keep [] = (Inr self, [] @ [Exists (a_url session_keep) (Inr True)])
          \<and> (\<forall>t. snd (upload world self t) = t))
   \<and> (\<exists>evs. snd (init world session []) = [] @ Exists (a_url session) (Inr True) # evs
          \<and> \<not> list_ex is_provisioning evs \<and> \<not> list_ex is_write evs)"
proof -
  have p: "parse_bossdb_uri world (a_url session_keep)
             = Inr \<lparr> ub_collection = ''col'', ub_experiment = ''exp'', ub_channel = ''chn'' \<rparr>"
          "parse_bossdb_uri world (a_url session)
             = Inr \<lparr> ub_collection = ''col'', ub_experiment = ''exp'', ub_channel = ''chn'' \<rparr>"
    by (simp_all add: world_def)
  have x: "bossdb_exists world [] (a_url session_keep) = Inr True"
          "bossdb_exists world [] (a_url session) = Inr True"
    by (simp_all add: world_def)
  have k: "\<not> a_overwrite session_keep" "a_overwrite session"
    by (simp_all add: session_keep_def session_def)
  show ?thesis
    using overwrite_guard [OF p(1) x(1)] overwrite_guard [OF p(2) x(2)] k by simp
qed

text \<open>
  C5 as stated fails: with \<^verbatim>\<open>overwrite=True\<close> and a destination that exists, the
  constructor makes the existence check and nothing else; provisioning does not run.
\<close>

theorem overwrite_does_not_provision:
  "a_overwrite session
   \<and> init world session [] = (Inr uploader, [Exists ''bossdb://col/exp/chn'' (Inr True)])"
  by (simp add: init_def Let_def world_def session_def uploader_def dtype_or_def volume_def)

subsection \<open>A file source without files\<close>

text \<open>
  C2 (as amended). For a file-sequence source whose filtered listing is empty and a
  destination that exists: with \<^verbatim>\<open>overwrite\<close> the constructor raises the "No files found"
  \<^verbatim>\<open>DataJointError\<close>, after the existence check and the listing and with no provisioning
  call and no write call before it; without \<^verbatim>\<open>overwrite\<close> the constructor returns early
  through the overwrite guard and raises nothing.
\<close>

theorem no_files_error:
  assumes "parse_bossdb_uri E (a_url a) = Inr ub"
    and "bossdb_exists E tr (a_url a) = Inr True"
    and "a_raw_data a = None"
    and "a_data_extension a = Some ext"
    and "glob E (tr @ [Exists (a_url a) (Inr True)]) (a_data_dir a) (''*'' @ ext) = []"
  shows "(a_overwrite a \<longrightarrow>
            init E a tr =
              (Inl (DataJointError (''No files found in the specified directory ''
                                      @ a_data_dir a @ ''/*'' @ ext @ ''.'')),
               tr @ [Exists (a_url a) (Inr True), Glob (a_data_dir a) (''*'' @ ext) []]))
       \<and> (\<not> a_overwrite a \<longrightarrow>
            (\<exists>self. init E a tr = (Inr self, tr @ [Exists (a_url a) (Inr True)])))"
  using assms by (simp add: init_def Let_def fetch_images_def)

theorem no_files_error_witness:
  "init world session_files [] =
     (Inl (DataJointError ''No files found in the specified directory /data/*.tif.''),
      [Exists ''bossdb://col/exp/chn'' (Inr True), Glob ''/data'' ''*.tif'' []])
   \<and> (\<exists>self. init world session_files_keep [] =
                (Inr self, [Exists ''bossdb://col/exp/chn'' (Inr True)]))"
proof -
  have a: "parse_bossdb_uri world (a_url session_files)
             = Inr \<lparr> ub_collection = ''col'', ub_experiment = ''exp'', ub_channel = ''chn'' \<rparr>"
          "bossdb_exists world [] (a_url session_files) = Inr True"
          "a_raw_data session_files = None"
          "a_data_extension session_files = Some ''.tif''"
          "glob world ([] @ [Exists (a_url session_files) (Inr True)])
             (a_data_dir session_files) (''*'' @ ''.tif'') = []"
    by (simp_all add: world_def session_files_def session_def)
  have b: "parse_bossdb_uri world (a_url session_files_keep)
             = Inr \<lparr> ub_collection = ''col'', ub_experiment = ''exp'', ub_channel = ''chn'' \<rparr>"
          "bossdb_exists world [] (a_url session_files_keep) = Inr True"
          "a_raw_data session_files_keep = None"
          "a_data_extension session_files_keep = Some ''.tif''"
          "glob world ([] @ [Exists (a_url session_files_keep) (Inr True)])
             (a_data_dir session_files_keep) (''*'' @ ''.tif'') = []"
    by (simp_all add: world_def session_files_keep_def session_files_def session_def)
  have k: "a_overwrite session_files" "\<not> a_overwrite session_files_keep"
          "a_url session_files = ''bossdb://col/exp/chn''"
          "a_url session_files_keep = ''bossdb://col/exp/chn''"
          "a_data_dir session_files = ''/data''"
    by (simp_all add: session_files_keep_def session_files_def session_def)
  show ?thesis
    using no_files_error [OF a] no_files_error [OF b] k by simp
qed

text \<open>
  C2 as stated fails: for a file source without files, a destination that exists and
  \<^verbatim>\<open>overwrite=False\<close>, the constructor returns an object; no error is raised.
\<close>

theorem no_files_no_error:
  "a_raw_data session_files_keep = None
   \<and> glob world [Exists ''bossdb://col/exp/chn'' (Inr True)] ''/data'' ''*.tif'' = []
   \<and> \<not> isl (fst (init world session_files_keep []))"
  by (simp add: init_def Let_def world_def session_files_keep_def session_files_def session_def)

subsection \<open>The coordinate frame descriptor\<close>

lemma init_completed:
  assumes "init E a tr = (Inr self, tr')"
    and "parse_bossdb_uri E (a_url a) = Inr ub"
  shows "bits self = ub \<and> shape_zyx self = a_shape_zyx a \<and> resources_cache self = None
     \<and> description self = ''Uploaded via DataJoint''
     \<and> voxel_size self = (py_float E (idx0 (a_voxel_size a)),
                        py_float E (idx1 (a_voxel_size a)),
                        py_float E (idx2 (a_voxel_size a)))"
  using assms
  by (auto simp add: init_def Let_def try_create_new_unset
           split: option.splits prod.splits sum.splits if_splits)

text \<open>
  C9. For every object the constructor returns: whenever the property \<^verbatim>\<open>resources\<close>
  gives its dictionary, the coordinate frame descriptor in it has the name
  \<open>CF_<collection>_<experiment>\<close> of the parsed URI, all three starts 0, the stops
  \<open>shape_zyx[2]\<close>, \<open>shape_zyx[1]\<close>, \<open>shape_zyx[0]\<close> for x, y, z, and the voxel sizes
  \<open>float(voxel_size[2])\<close>, \<open>float(voxel_size[1])\<close>, \<open>float(voxel_size[0])\<close> for x, y, z.
  The property gives its dictionary when the dtype of the object is assigned and the
  constructor of \<^verbatim>\<open>ChannelResource\<close> accepts it; otherwise it raises, and there is no
  descriptor.
\<close>

theorem coord_frame_descriptor:
  assumes "init E a tr = (Inr self, tr')"
    and "parse_bossdb_uri E (a_url a) = Inr ub"
  shows "(resources E self = Inr (rs, self') \<longrightarrow>
            r_coord_frame rs =
              \<lparr> cf_name = ''CF_'' @ ub_collection ub @ ''_'' @ ub_experiment ub,
                cf_description = ''Uploaded via DataJoint'',
                x_start = 0,
                x_stop = idx2 (a_shape_zyx a),
                y_start = 0,
                y_stop = idx1 (a_shape_zyx a),
                z_start = 0,
                z_stop = idx0 (a_shape_zyx a),
                x_voxel_size = py_float E (idx2 (a_voxel_size a)),
                y_voxel_size = py_float E (idx1 (a_voxel_size a)),
                z_voxel_size = py_float E (idx0 (a_voxel_size a)) \<rparr>)
       \<and> (dtype self = Assigned dt \<and> validate_datatype E dt = Inr datatype \<longrightarrow>
            (\<exists>rs1 self1. resources E self = Inr (rs1, self1)))
       \<and> (dtype self = Unset \<longrightarrow> resources E self = Inl (AttributeError ''_dtype''))
       \<and> (dtype self = Assigned dt \<and> validate_datatype E dt = Inl e \<longrightarrow>
            resources E self = Inl e)"
proof (intro conjI impI)
  assume r: "resources E self = Inr (rs, self')"
  show "r_coord_frame rs =
              \<lparr> cf_name = ''CF_'' @ ub_collection ub @ ''_'' @ ub_experiment ub,
                cf_description = ''Uploaded via DataJoint'',
                x_start = 0,
                x_stop = idx2 (a_shape_zyx a),
                y_start = 0,
                y_stop = idx1 (a_shape_zyx a),
                z_start = 0,
                z_stop = idx0 (a_shape_zyx a),
                x_voxel_size = py_float E (idx2 (a_voxel_size a)),
                y_voxel_size = py_float E (idx1 (a_voxel_size a)),
                z_voxel_size = py_float E (idx0 (a_voxel_size a)) \<rparr>"
  proof (cases "dtype self")
    case Unset
    then show ?thesis
      using init_completed [OF assms] r by (simp add: resources_def Let_def)
  next
    case (Assigned d)
    show ?thesis
    proof (cases "validate_datatype E d")
      case (Inl x)
      then show ?thesis
        using init_completed [OF assms] r Assigned by (simp add: resources_def Let_def)
    next
      case (Inr stored)
      have "rs = fst (rs, self')" by simp
      also have "(rs, self') = projr (resources E self)" using r by simp
      finally show ?thesis
        using init_completed [OF assms] Assigned Inr by (simp add: resources_def Let_def)
    qed
  qed
next
  assume "dtype self = Assigned dt \<and> validate_datatype E dt = Inr datatype"
  then show "\<exists>rs1 self1. resources E self = Inr (rs1, self1)"
    using init_completed [OF assms] by (simp add: resources_def Let_def)
next
  assume "dtype self = Unset"
  then show "resources E self = Inl (AttributeError ''_dtype'')"
    using init_completed [OF assms] by (simp add: resources_def Let_def)
next
  assume "dtype self = Assigned dt \<and> validate_datatype E dt = Inl e"
  then show "resources E self = Inl e"
    using init_completed [OF assms] by (simp add: resources_def Let_def)
qed

theorem coord_frame_descriptor_witness:
  "(\<exists>rs self'. resources world uploader = Inr (rs, self')
      \<and> r_coord_frame rs =
          \<lparr> cf_name = ''CF_col_exp'',
            cf_description = ''Uploaded via DataJoint'',
            x_start = 0, x_stop = 3, y_start = 0, y_stop = 2, z_start = 0, z_stop = 5,
            x_voxel_size = 1, y_voxel_size = 1, z_voxel_size = 4 \<rparr>)
   \<and> fst (init world (session\<lparr>a_dtype := None\<rparr>) [])
       = Inr (uploader\<lparr>dtype := Assigned (Some (DtypeNp ''uint16''))\<rparr>)
   \<and> resources world (uploader\<lparr>dtype := Assigned (Some (DtypeNp ''uint16''))\<rparr>)
       = Inl (AttributeError ''lower'')
   \<and> fst (init world session_keep []) = Inr (uploader\<lparr>overwrite := False, dtype := Unset\<rparr>)
   \<and> resources world (uploader\<lparr>overwrite := False, dtype := Unset\<rparr>)
       = Inl (AttributeError ''_dtype'')"
proof -
  let ?tr = "[Exists ''bossdb://col/exp/chn'' (Inr True)]"
  let ?np = "uploader\<lparr>dtype := Assigned (Some (DtypeNp ''uint16''))\<rparr>"
  let ?kept = "uploader\<lparr>overwrite := False, dtype := Unset\<rparr>"
  have i: "init world session [] = (Inr uploader, ?tr)"
    by (simp add: init_def Let_def world_def session_def uploader_def dtype_or_def volume_def)
  have i2: "init world (session\<lparr>a_dtype := None\<rparr>) [] = (Inr ?np, ?tr)"
    by (simp add: init_def Let_def world_def session_def uploader_def dtype_or_def volume_def)
  have i3: "init world session_keep [] = (Inr ?kept, ?tr)"
    by (simp add: init_def Let_def world_def session_keep_def session_def uploader_def)
  have p: "parse_bossdb_uri world (a_url session)
             = Inr \<lparr> ub_collection = ''col'', ub_experiment = ''exp'', ub_channel = ''chn'' \<rparr>"
    by (simp add: world_def)
  have p2: "parse_bossdb_uri world (a_url (session\<lparr>a_dtype := None\<rparr>))
             = Inr \<lparr> ub_collection = ''col'', ub_experiment = ''exp'', ub_channel = ''chn'' \<rparr>"
    by (simp add: world_def)
  have p3: "parse_bossdb_uri world (a_url session_keep)
             = Inr \<lparr> ub_collection = ''col'', ub_experiment = ''exp'', ub_channel = ''chn'' \<rparr>"
    by (simp add: world_def)
  have d: "dtype uploader = Assigned (Some (DtypeStr ''uint16''))
           \<and> validate_datatype world (Some (DtypeStr ''uint16'')) = Inr ''uint16''"
    by (simp add: uploader_def world_def known_datatype_def)
  have d2: "dtype ?np = Assigned (Some (DtypeNp ''uint16''))
           \<and> validate_datatype world (Some (DtypeNp ''uint16'')) = Inl (AttributeError ''lower'')"
    by (simp add: world_def known_datatype_def)
  have d3: "dtype ?kept = Unset"
    by simp
  from coord_frame_descriptor [OF i p, of _ _ "Some (DtypeStr ''uint16'')" "''uint16''"] d
  obtain rs self' where r: "resources world uploader = Inr (rs, self')"
    by blast
  have "r_coord_frame rs =
         \<lparr> cf_name = ''CF_col_exp'',
           cf_description = ''Uploaded via DataJoint'',
           x_start = 0, x_stop = 3, y_start = 0, y_stop = 2, z_start = 0, z_stop = 5,
           x_voxel_size = 1, y_voxel_size = 1, z_voxel_size = 4 \<rparr>"
    using coord_frame_descriptor [OF i p, of rs self'] r
    by (simp add: session_def world_def)
  then have c1: "\<exists>rs self'. resources world uploader = Inr (rs, self')
      \<and> r_coord_frame rs =
          \<lparr> cf_name = ''CF_col_exp'',
            cf_description = ''Uploaded via DataJoint'',
            x_start = 0, x_stop = 3, y_start = 0, y_stop = 2, z_start = 0, z_stop = 5,
            x_voxel_size = 1, y_voxel_size = 1, z_voxel_size = 4 \<rparr>"
    using r by (intro exI [of _ rs] exI [of _ self'] conjI)
  have c2: "resources world ?np = Inl (AttributeError ''lower'')"
    using coord_frame_descriptor
            [OF i2 p2, of _ _ "Some (DtypeNp ''uint16'')" _ "AttributeError ''lower''"] d2
    by simp
  have c3: "resources world ?kept = Inl (AttributeError ''_dtype'')"
    using coord_frame_descriptor [OF i3 p3] d3 by simp
  show ?thesis
    using c1 i2 c2 i3 c3 by (intro conjI) simp_all
qed

subsection \<open>\<^verbatim>\<open>try_create_new\<close>\<close>

lemma resources_cached:
  "resources_cache self = Some rs \<Longrightarrow> resources E self = Inr (rs, self)"
  by (simp add: resources_def)

lemma resources_fill:
  "resources E self = Inr (rs, self1) \<Longrightarrow> resources_cache self1 = Some rs"
  by (auto simp add: resources_def Let_def split: option.splits attr.splits sum.splits)

lemma get_or_create_confirmed:
  "get_or_create E d tr = (Inr r, tr1) \<Longrightarrow> \<exists>s. tr1 = tr @ s \<and> confirmed_by d r s"
  by (auto simp add: get_or_create_def Let_def split: sum.splits if_splits)

lemma step_inv:
  assumes "(case g of (Inl e, t) \<Rightarrow> (Inl e, t) | (Inr r, t) \<Rightarrow> k r t) = (Inr x, t')"
  obtains r t where "g = (Inr r, t)" and "k r t = (Inr x, t')"
  using assms by (cases g; cases "fst g") auto

text \<open>
  C8. Whenever \<^verbatim>\<open>try_create_new\<close> completes, its remote calls are five get-or-create
  steps in this order: the collection, the coordinate frame, the experiment, the
  precursor channel, the final channel. The experiment descriptor that is fetched or
  created carries the name of the result of the coordinate frame step, and the final
  channel descriptor carries, as its only source, the name of the result of the
  precursor channel step.
\<close>

theorem try_create_new_order:
  assumes "try_create_new E self tr = (Inr self', tr')"
  shows "\<exists>rs self0 r1 r2 r3 r4 r5 s1 s2 s3 s4 s5.
           resources E self = Inr (rs, self0)
         \<and> tr' = tr @ s1 @ s2 @ s3 @ s4 @ s5
         \<and> confirmed_by (Collection (r_collection rs)) r1 s1
         \<and> confirmed_by (CoordinateFrame (r_coord_frame rs)) r2 s2
         \<and> confirmed_by
             (Experiment ((r_experiment rs)\<lparr>exp_coord_frame := resource_name r2\<rparr>)) r3 s3
         \<and> confirmed_by (Channel (r_channel_resource rs)) r4 s4
         \<and> confirmed_by
             (Channel ((r_channel rs)\<lparr>ch_sources := Some [resource_name r4]\<rparr>)) r5 s5"
proof -
  obtain rs self1 where a1: "resources E self = Inr (rs, self1)"
  proof (cases "resources E self")
    case (Inl e)
    then show ?thesis using assms by (simp add: try_create_new_def)
  next
    case (Inr p)
    then show ?thesis using that by (cases p) simp
  qed
  have c1: "resources E self1 = Inr (rs, self1)"
    by (rule resources_cached [OF resources_fill [OF a1]])
  let ?d1 = "Collection (r_collection rs)"
  let ?d2 = "CoordinateFrame (r_coord_frame rs)"
  let ?d4 = "Channel (r_channel_resource rs)"
  have e1: "(case get_or_create E ?d1 tr of
        (Inl e, tr1) \<Rightarrow> (Inl e, tr1)
      | (Inr u, tr1) \<Rightarrow>
     (case get_or_create E ?d2 tr1 of
        (Inl e, tr2) \<Rightarrow> (Inl e, tr2)
      | (Inr true_coord_frame, tr2) \<Rightarrow>
     (let experiment = (r_experiment rs)\<lparr>exp_coord_frame := resource_name true_coord_frame\<rparr>;
          self4 = self1\<lparr>resources_cache := Some (rs\<lparr>r_experiment := experiment\<rparr>)\<rparr>
      in
     (case get_or_create E (Experiment experiment) tr2 of
        (Inl e, tr3) \<Rightarrow> (Inl e, tr3)
      | (Inr u, tr3) \<Rightarrow>
     (case resources E self4 of
        Inl e \<Rightarrow> (Inl e, tr3)
      | Inr (rs4, self5) \<Rightarrow>
     (case get_or_create E (Channel (r_channel_resource rs4)) tr3 of
        (Inl e, tr4) \<Rightarrow> (Inl e, tr4)
      | (Inr channel_resource, tr4) \<Rightarrow>
     (case resources E self5 of
        Inl e \<Rightarrow> (Inl e, tr4)
      | Inr (rs5, self6) \<Rightarrow>
     (let channel = (r_channel rs5)\<lparr>ch_sources := Some [resource_name channel_resource]\<rparr>;
          self7 = self6\<lparr>resources_cache := Some (rs5\<lparr>r_channel := channel\<rparr>)\<rparr>
      in
     (case get_or_create E (Channel channel) tr4 of
        (Inl e, tr5) \<Rightarrow> (Inl e, tr5)
      | (Inr u, tr5) \<Rightarrow> (Inr self7, tr5)))))))))) = (Inr self', tr')"
    using assms unfolding try_create_new_def by (simp only: a1 c1 sum.case prod.case)
  from e1 obtain r1 t1 where g1: "get_or_create E ?d1 tr = (Inr r1, t1)"
    and e2: "(case get_or_create E ?d2 t1 of
        (Inl e, tr2) \<Rightarrow> (Inl e, tr2)
      | (Inr true_coord_frame, tr2) \<Rightarrow>
     (let experiment = (r_experiment rs)\<lparr>exp_coord_frame := resource_name true_coord_frame\<rparr>;
          self4 = self1\<lparr>resources_cache := Some (rs\<lparr>r_experiment := experiment\<rparr>)\<rparr>
      in
     (case get_or_create E (Experiment experiment) tr2 of
        (Inl e, tr3) \<Rightarrow> (Inl e, tr3)
      | (Inr u, tr3) \<Rightarrow>
     (case resources E self4 of
        Inl e \<Rightarrow> (Inl e, tr3)
      | Inr (rs4, self5) \<Rightarrow>
     (case get_or_create E (Channel (r_channel_resource rs4)) tr3 of
        (Inl e, tr4) \<Rightarrow> (Inl e, tr4)
      | (Inr channel_resource, tr4) \<Rightarrow>
     (case resources E self5 of
        Inl e \<Rightarrow> (Inl e, tr4)
      | Inr (rs5, self6) \<Rightarrow>
     (let channel = (r_channel rs5)\<lparr>ch_sources := Some [resource_name channel_resource]\<rparr>;
          self7 = self6\<lparr>resources_cache := Some (rs5\<lparr>r_channel := channel\<rparr>)\<rparr>
      in
     (case get_or_create E (Channel channel) tr4 of
        (Inl e, tr5) \<Rightarrow> (Inl e, tr5)
      | (Inr u, tr5) \<Rightarrow> (Inr self7, tr5))))))))) = (Inr self', tr')"
    by (rule step_inv)
  from e2 obtain r2 t2 where g2: "get_or_create E ?d2 t1 = (Inr r2, t2)"
    and e3: "(let experiment = (r_experiment rs)\<lparr>exp_coord_frame := resource_name r2\<rparr>;
          self4 = self1\<lparr>resources_cache := Some (rs\<lparr>r_experiment := experiment\<rparr>)\<rparr>
      in
     (case get_or_create E (Experiment experiment) t2 of
        (Inl e, tr3) \<Rightarrow> (Inl e, tr3)
      | (Inr u, tr3) \<Rightarrow>
     (case resources E self4 of
        Inl e \<Rightarrow> (Inl e, tr3)
      | Inr (rs4, self5) \<Rightarrow>
     (case get_or_create E (Channel (r_channel_resource rs4)) tr3 of
        (Inl e, tr4) \<Rightarrow> (Inl e, tr4)
      | (Inr channel_resource, tr4) \<Rightarrow>
     (case resources E self5 of
        Inl e \<Rightarrow> (Inl e, tr4)
      | Inr (rs5, self6) \<Rightarrow>
     (let channel = (r_channel rs5)\<lparr>ch_sources := Some [resource_name channel_resource]\<rparr>;
          self7 = self6\<lparr>resources_cache := Some (rs5\<lparr>r_channel := channel\<rparr>)\<rparr>
      in
     (case get_or_create E (Channel channel) tr4 of
        (Inl e, tr5) \<Rightarrow> (Inl e, tr5)
      | (Inr u, tr5) \<Rightarrow> (Inr self7, tr5)))))))) = (Inr self', tr')"
    by (rule step_inv)
  let ?x = "(r_experiment rs)\<lparr>exp_coord_frame := resource_name r2\<rparr>"
  let ?rs3 = "rs\<lparr>r_experiment := ?x\<rparr>"
  let ?self4 = "self1\<lparr>resources_cache := Some ?rs3\<rparr>"
  have c4: "resources E ?self4 = Inr (?rs3, ?self4)"
    by (rule resources_cached) simp
  have k4: "r_channel_resource ?rs3 = r_channel_resource rs" "r_channel ?rs3 = r_channel rs"
    by simp_all
  from e3 have e3': "(case get_or_create E (Experiment ?x) t2 of
        (Inl e, tr3) \<Rightarrow> (Inl e, tr3)
      | (Inr u, tr3) \<Rightarrow>
     (case get_or_create E ?d4 tr3 of
        (Inl e, tr4) \<Rightarrow> (Inl e, tr4)
      | (Inr channel_resource, tr4) \<Rightarrow>
     (let channel = (r_channel rs)\<lparr>ch_sources := Some [resource_name channel_resource]\<rparr>;
          self7 = ?self4\<lparr>resources_cache := Some (?rs3\<lparr>r_channel := channel\<rparr>)\<rparr>
      in
     (case get_or_create E (Channel channel) tr4 of
        (Inl e, tr5) \<Rightarrow> (Inl e, tr5)
      | (Inr u, tr5) \<Rightarrow> (Inr self7, tr5))))) = (Inr self', tr')"
    by (simp only: Let_def c4 k4 sum.case prod.case)
  from e3' obtain r3 t3 where g3: "get_or_create E (Experiment ?x) t2 = (Inr r3, t3)"
    and e4: "(case get_or_create E ?d4 t3 of
        (Inl e, tr4) \<Rightarrow> (Inl e, tr4)
      | (Inr channel_resource, tr4) \<Rightarrow>
     (let channel = (r_channel rs)\<lparr>ch_sources := Some [resource_name channel_resource]\<rparr>;
          self7 = ?self4\<lparr>resources_cache := Some (?rs3\<lparr>r_channel := channel\<rparr>)\<rparr>
      in
     (case get_or_create E (Channel channel) tr4 of
        (Inl e, tr5) \<Rightarrow> (Inl e, tr5)
      | (Inr u, tr5) \<Rightarrow> (Inr self7, tr5)))) = (Inr self', tr')"
    by (rule step_inv)
  from e4 obtain r4 t4 where g4: "get_or_create E ?d4 t3 = (Inr r4, t4)"
    and e5: "(let channel = (r_channel rs)\<lparr>ch_sources := Some [resource_name r4]\<rparr>;
          self7 = ?self4\<lparr>resources_cache := Some (?rs3\<lparr>r_channel := channel\<rparr>)\<rparr>
      in
     (case get_or_create E (Channel channel) t4 of
        (Inl e, tr5) \<Rightarrow> (Inl e, tr5)
      | (Inr u, tr5) \<Rightarrow> (Inr self7, tr5))) = (Inr self', tr')"
    by (rule step_inv)
  let ?c = "(r_channel rs)\<lparr>ch_sources := Some [resource_name r4]\<rparr>"
  from e5 have e5': "(case get_or_create E (Channel ?c) t4 of
        (Inl e, tr5) \<Rightarrow> (Inl e, tr5)
      | (Inr u, tr5) \<Rightarrow> (Inr (?self4\<lparr>resources_cache := Some (?rs3\<lparr>r_channel := ?c\<rparr>)\<rparr>), tr5))
      = (Inr self', tr')"
    by (simp only: Let_def)
  obtain r5 where g5: "get_or_create E (Channel ?c) t4 = (Inr r5, tr')"
  proof (cases "get_or_create E (Channel ?c) t4")
    case (Pair res t5)
    show ?thesis
    proof (cases res)
      case (Inl e)
      then show ?thesis using Pair e5' by simp
    next
      case (Inr r)
      then have "t5 = tr'" using Pair e5' by simp
      then show ?thesis using Pair Inr that by simp
    qed
  qed
  from get_or_create_confirmed [OF g1] obtain s1 where
    s1: "t1 = tr @ s1" "confirmed_by ?d1 r1 s1" by blast
  from get_or_create_confirmed [OF g2] obtain s2 where
    s2: "t2 = t1 @ s2" "confirmed_by ?d2 r2 s2" by blast
  from get_or_create_confirmed [OF g3] obtain s3 where
    s3: "t3 = t2 @ s3" "confirmed_by (Experiment ?x) r3 s3" by blast
  from get_or_create_confirmed [OF g4] obtain s4 where
    s4: "t4 = t3 @ s4" "confirmed_by ?d4 r4 s4" by blast
  from get_or_create_confirmed [OF g5] obtain s5 where
    s5: "tr' = t4 @ s5" "confirmed_by (Channel ?c) r5 s5" by blast
  have "tr' = tr @ s1 @ s2 @ s3 @ s4 @ s5"
    using s1(1) s2(1) s3(1) s4(1) s5(1) by simp
  then show ?thesis
    using a1 s1(2) s2(2) s3(2) s4(2) s5(2) by blast
qed

theorem try_create_new_order_witness:
  "\<exists>self' tr'. try_create_new world uploader [] = (Inr self', tr')
     \<and> (\<exists>rs self0 r1 r2 r3 r4 r5 s1 s2 s3 s4 s5.
           resources world uploader = Inr (rs, self0)
         \<and> tr' = [] @ s1 @ s2 @ s3 @ s4 @ s5
         \<and> confirmed_by (Collection (r_collection rs)) r1 s1
         \<and> confirmed_by (CoordinateFrame (r_coord_frame rs)) r2 s2
         \<and> confirmed_by
             (Experiment ((r_experiment rs)\<lparr>exp_coord_frame := resource_name r2\<rparr>)) r3 s3
         \<and> confirmed_by (Channel (r_channel_resource rs)) r4 s4
         \<and> confirmed_by
             (Channel ((r_channel rs)\<lparr>ch_sources := Some [resource_name r4]\<rparr>)) r5 s5)"
proof -
  have "\<exists>self' tr'. try_create_new world uploader [] = (Inr self', tr')"
    by (simp add: try_create_new_def resources_def get_or_create_def Let_def
                  world_def uploader_def confirm_def known_datatype_def)
  then obtain self' tr' where t: "try_create_new world uploader [] = (Inr self', tr')"
    by (elim exE)
  show ?thesis
    using try_create_new_order [OF t] t by (intro exI [of _ self'] exI [of _ tr'] conjI)
qed

section \<open>Upload\<close>

subsection \<open>The retry loop\<close>

lemma write_stack_answer:
  "dataset self = Inr ds \<Longrightarrow>
   write_stack E self i stack tr =
     (write_cutout E tr (cutout_of ds i stack),
      tr @ [WriteCutout (cutout_of ds i stack) (write_cutout E tr (cutout_of ds i stack))])"
  by (simp add: write_stack_def Let_def)

lemma write_loop_refused:
  assumes ds: "dataset self = Inr ds"
    and rm: "retry_max self = Some m"
    and refuse: "\<forall>h. write_cutout E h (cutout_of ds i stack) \<noteq> None"
  shows "n = nat (m - retry_count) \<Longrightarrow>
         \<exists>es. length es = n + 1
            \<and> write_loop E self i stack retry_count tr =
                (Inl (last es),
                 tr @ map (\<lambda>e. WriteCutout (cutout_of ds i stack) (Some e)) es)"
proof (induction n arbitrary: retry_count tr)
  case 0
  obtain e where e: "write_cutout E tr (cutout_of ds i stack) = Some e"
    using spec [OF refuse, of tr] by (cases "write_cutout E tr (cutout_of ds i stack)") auto
  have "m < retry_count + 1" using 0 by simp
  then have "write_loop E self i stack retry_count tr =
      (Inl (last [e]), tr @ map (\<lambda>e. WriteCutout (cutout_of ds i stack) (Some e)) [e])"
    using e rm by (subst write_loop.simps) (simp add: write_stack_answer [OF ds])
  then show ?case by (intro exI [of _ "[e]"]) simp
next
  case (Suc n)
  let ?c = "cutout_of ds i stack"
  obtain e where e: "write_cutout E tr ?c = Some e"
    using spec [OF refuse, of tr] by (cases "write_cutout E tr ?c") auto
  have le: "\<not> m < retry_count + 1" and n: "n = nat (m - (retry_count + 1))"
    using Suc.prems by simp_all
  from Suc.IH [OF n, of "tr @ [WriteCutout ?c (Some e)]"] obtain es where
    es: "length es = n + 1"
        "write_loop E self i stack (retry_count + 1) (tr @ [WriteCutout ?c (Some e)]) =
           (Inl (last es), (tr @ [WriteCutout ?c (Some e)]) @ map (\<lambda>e. WriteCutout ?c (Some e)) es)"
    by blast
  have ne: "es \<noteq> []" using es(1) by auto
  have "write_loop E self i stack retry_count tr =
      (Inl (last (e # es)), tr @ map (\<lambda>e. WriteCutout ?c (Some e)) (e # es))"
    using e rm le es(2) ne by (subst write_loop.simps) (simp add: write_stack_answer [OF ds])
  then show ?case using es(1) by (intro exI [of _ "e # es"]) simp
qed

lemma write_loop_recovers:
  assumes ds: "dataset self = Inr ds"
    and rm: "retry_max self = Some m"
  shows "fails_then_succeeds E (cutout_of ds i stack) tr es \<Longrightarrow>
         retry_count + int (length es) \<le> m \<Longrightarrow>
         write_loop E self i stack retry_count tr =
           (Inr (), tr @ map (\<lambda>e. WriteCutout (cutout_of ds i stack) (Some e)) es
                       @ [WriteCutout (cutout_of ds i stack) None])"
proof (induction es arbitrary: retry_count tr)
  case Nil
  then show ?case by (subst write_loop.simps) (simp add: write_stack_answer [OF ds])
next
  case (Cons e es)
  let ?c = "cutout_of ds i stack"
  have e: "write_cutout E tr ?c = Some e"
    and rest: "fails_then_succeeds E ?c (tr @ [WriteCutout ?c (Some e)]) es"
    using Cons.prems(1) by simp_all
  have le: "\<not> m < retry_count + 1" and le2: "(retry_count + 1) + int (length es) \<le> m"
    using Cons.prems(2) by simp_all
  show ?case
    using e rm le Cons.IH [OF rest le2]
    by (subst write_loop.simps) (simp add: write_stack_answer [OF ds])
qed

lemma upload_loop_append:
  "upload_loop E self z_max inc (pre @ rest) tr =
     (case upload_loop E self z_max inc pre tr of
        (Inl e, t) \<Rightarrow> (Inl e, t)
      | (Inr u, t) \<Rightarrow> upload_loop E self z_max inc rest t)"
proof (induction pre arbitrary: tr)
  case Nil
  then show ?case by simp
next
  case (Cons i pre)
  show ?case
    by (simp add: Cons.IH Let_def split: prod.splits sum.splits)
qed

subsection \<open>What the volume source adds to the trace\<close>

lemma open_images_trace:
  "\<exists>evs. snd (open_images E paths tr) = tr @ evs \<and> \<not> list_ex is_write evs"
proof (induction paths arbitrary: tr)
  case Nil
  then show ?case by simp
next
  case (Cons p paths)
  let ?t = "tr @ [ImageOpen p (image_open E tr p)]"
  from Cons.IH [of ?t] obtain evs where
    evs: "snd (open_images E paths ?t) = ?t @ evs" "\<not> list_ex is_write evs" by blast
  show ?case
  proof (cases "image_open E tr p")
    case (Inl e)
    then show ?thesis by (intro exI [of _ "[ImageOpen p (Inl e)]"]) simp
  next
    case (Inr im)
    then show ?thesis using evs
      by (intro exI [of _ "ImageOpen p (Inr im) # evs"])
         (auto simp add: Let_def split: prod.splits sum.splits)
  qed
qed

lemma get_stack_trace:
  "\<exists>evs. snd (get_stack E self i z tr) = tr @ evs \<and> \<not> list_ex is_write evs"
proof (cases "raw_data self")
  case (Some arr)
  then show ?thesis by (simp add: get_stack_def)
next
  case None
  show ?thesis
  proof (cases "image_paths self")
    case Unset
    then show ?thesis using None by (simp add: get_stack_def np_from_images_def)
  next
    case (Assigned paths)
    from open_images_trace [of E "py_slice paths i z" tr] obtain evs where
      evs: "snd (open_images E (py_slice paths i z) tr) = tr @ evs" "\<not> list_ex is_write evs"
      by blast
    have "snd (get_stack E self i z tr) = snd (open_images E (py_slice paths i z) tr)"
      using None Assigned
      by (simp add: get_stack_def np_from_images_def split: prod.splits sum.splits)
    then show ?thesis using evs by auto
  qed
qed

subsection \<open>Retry exhaustion\<close>

text \<open>
  C3. Let the slabs before the one at \<open>i\<close> be uploaded (trace \<open>tr0\<close>), let the slab at
  \<open>i\<close> be fetched (trace \<open>tr1\<close>, which adds no write to \<open>tr0\<close>) and let every write
  attempt at its cutout fail. Then, for a retry budget \<open>m \<ge> 0\<close>, \<^verbatim>\<open>upload\<close> raises the
  error of the last attempt, and its trace is \<open>tr1\<close> followed by exactly \<open>m + 1\<close> failed
  attempts at that cutout: no write for a later slab, and nothing after the writes of
  the earlier slabs that would undo them.
\<close>

theorem upload_aborts_when_retries_exhausted:
  assumes "upload_increment self = Some inc"
    and "py_range 0 (idx0 (shape_zyx self)) inc = Inr (pre @ i # rest)"
    and "upload_loop E self (idx0 (shape_zyx self)) inc pre tr = (Inr (), tr0)"
    and "get_stack E self i (min (i + inc) (idx0 (shape_zyx self))) tr0 = (Inr stack, tr1)"
    and "dataset self = Inr ds"
    and "\<forall>h. write_cutout E h (cutout_of ds i (normalize E stack)) \<noteq> None"
    and "retry_max self = Some m"
    and "0 \<le> m"
  shows "\<exists>es fetch.
           int (length es) = m + 1
         \<and> tr1 = tr0 @ fetch \<and> \<not> list_ex is_write fetch
         \<and> upload E self tr =
             (Inl (last es),
              tr1 @ map (\<lambda>e. WriteCutout (cutout_of ds i (normalize E stack)) (Some e)) es)"
proof -
  let ?z = "idx0 (shape_zyx self)"
  let ?c = "cutout_of ds i (normalize E stack)"
  from write_loop_refused [OF assms(5) assms(7) assms(6) refl, of 0 tr1] obtain es where
    es: "length es = nat (m - 0) + 1"
        "write_loop E self i (normalize E stack) 0 tr1 =
           (Inl (last es), tr1 @ map (\<lambda>e. WriteCutout ?c (Some e)) es)"
    by blast
  have len: "int (length es) = m + 1" using es(1) assms(8) by simp
  from get_stack_trace [of E self i "min (i + inc) ?z" tr0] obtain fetch where
    fetch: "tr1 = tr0 @ fetch" "\<not> list_ex is_write fetch"
    using assms(4) by auto
  have "upload_loop E self ?z inc (i # rest) tr0 =
          (Inl (last es), tr1 @ map (\<lambda>e. WriteCutout ?c (Some e)) es)"
    using assms(4) es(2) by (simp add: Let_def)
  then have "upload E self tr = (Inl (last es), tr1 @ map (\<lambda>e. WriteCutout ?c (Some e)) es)"
    using assms(1,2,3) by (simp add: upload_def Let_def upload_loop_append)
  then show ?thesis using len fetch by blast
qed


theorem upload_aborts_when_retries_exhausted_witness:
  "\<exists>es fetch.
      int (length es) = 3 + 1
    \<and> [WriteCutout (slab_cutout 0 2) None] = [WriteCutout (slab_cutout 0 2) None] @ fetch
    \<and> \<not> list_ex is_write fetch
    \<and> upload world_refusing uploader [] =
        (Inl (last es),
         [WriteCutout (slab_cutout 0 2) None]
           @ map (\<lambda>e. WriteCutout
                        (cutout_of uploader_dataset 2 (normalize world_refusing (view 2 4)))
                        (Some e)) es)"
proof -
  have h1: "upload_increment uploader = Some 2"
    by (simp add: uploader_def)
  have h2: "py_range 0 (idx0 (shape_zyx uploader)) 2 = Inr ([0] @ 2 # [4])"
    by (simp add: uploader_def py_range_def range_from.simps)
  have h5: "dataset uploader = Inr uploader_dataset"
    by (simp add: dataset_def uploader_def uploader_dataset_def)
  have g0: "get_stack world_refusing uploader 0 2 [] = (Inr (view 0 2), [])"
    by (simp add: get_stack_def uploader_def world_refusing_def world_def view_def volume_def)
  have n0: "normalize world_refusing (view 0 2) = (view 0 2)\<lparr>c_contiguous := True\<rparr>"
    by (simp add: normalize_def world_refusing_def world_def view_def volume_def)
  have w0: "write_cutout world_refusing [] (slab_cutout 0 2) = None"
    by (simp add: world_refusing_def world_def slab_cutout_def cutout_of_def)
  have l0: "write_loop world_refusing uploader 0 ((view 0 2)\<lparr>c_contiguous := True\<rparr>) 0 []
              = (Inr (), [WriteCutout (slab_cutout 0 2) None])"
    using w0 by (subst write_loop.simps) (simp add: write_stack_answer [OF h5] slab_cutout_def)
  have h3: "upload_loop world_refusing uploader (idx0 (shape_zyx uploader)) 2 [0] []
              = (Inr (), [WriteCutout (slab_cutout 0 2) None])"
    using g0 n0 l0 by (simp add: uploader_def)
  have h4: "get_stack world_refusing uploader 2 (min (2 + 2) (idx0 (shape_zyx uploader)))
              [WriteCutout (slab_cutout 0 2) None]
              = (Inr (view 2 4), [WriteCutout (slab_cutout 0 2) None])"
    by (simp add: get_stack_def uploader_def world_refusing_def world_def view_def volume_def)
  have h6: "\<forall>h. write_cutout world_refusing h
                  (cutout_of uploader_dataset 2 (normalize world_refusing (view 2 4))) \<noteq> None"
    by (simp add: world_refusing_def world_def cutout_of_def)
  have h7: "retry_max uploader = Some 3"
    by (simp add: uploader_def)
  have h8: "(0::int) \<le> 3"
    by simp
  show ?thesis
    using upload_aborts_when_retries_exhausted [OF h1 h2 h3 h4 h5 h6 h7 h8] by simp
qed

subsection \<open>Retry recovery\<close>

text \<open>
  C7. Let the slabs before the one at \<open>i\<close> be uploaded, let the slab at \<open>i\<close> be fetched
  (trace \<open>tr1\<close>), and let the writer refuse its cutout \<open>k\<close> times, with the errors \<open>es\<close>,
  and then accept it, for \<open>k\<close> within the retry budget. Then \<^verbatim>\<open>upload\<close> goes on with all
  the slabs that remain, from a trace that holds, after \<open>tr1\<close>, the \<open>k\<close> failed attempts
  and the successful one and nothing else: every attempt passes the same cutout, whose
  buffer is the slab fetched once and normalized once.
\<close>

theorem upload_continues_after_recovered_write:
  assumes "upload_increment self = Some inc"
    and "py_range 0 (idx0 (shape_zyx self)) inc = Inr (pre @ i # rest)"
    and "upload_loop E self (idx0 (shape_zyx self)) inc pre tr = (Inr (), tr0)"
    and "get_stack E self i (min (i + inc) (idx0 (shape_zyx self))) tr0 = (Inr stack, tr1)"
    and "dataset self = Inr ds"
    and "fails_then_succeeds E (cutout_of ds i (normalize E stack)) tr1 es"
    and "retry_max self = Some m"
    and "int (length es) \<le> m"
  shows "upload E self tr =
           upload_loop E self (idx0 (shape_zyx self)) inc rest
             (tr1 @ map (\<lambda>e. WriteCutout (cutout_of ds i (normalize E stack)) (Some e)) es
                  @ [WriteCutout (cutout_of ds i (normalize E stack)) None])"
proof -
  let ?z = "idx0 (shape_zyx self)"
  let ?c = "cutout_of ds i (normalize E stack)"
  have w: "write_loop E self i (normalize E stack) 0 tr1 =
             (Inr (), tr1 @ map (\<lambda>e. WriteCutout ?c (Some e)) es @ [WriteCutout ?c None])"
    using write_loop_recovers [OF assms(5) assms(7) assms(6), of 0] assms(8) by simp
  have "upload_loop E self ?z inc (i # rest) tr0 =
          upload_loop E self ?z inc rest
            (tr1 @ map (\<lambda>e. WriteCutout ?c (Some e)) es @ [WriteCutout ?c None])"
    using assms(4) w by (simp add: Let_def)
  then show ?thesis
    using assms(1,2,3) by (simp add: upload_def Let_def upload_loop_append)
qed

theorem upload_continues_after_recovered_write_witness:
  "upload world_flaky uploader [] =
     upload_loop world_flaky uploader (idx0 (shape_zyx uploader)) 2 [2, 4]
       ([] @ map (\<lambda>e. WriteCutout
                         (cutout_of uploader_dataset 0 (normalize world_flaky (view 0 2)))
                         (Some e)) [HTTPError 503, HTTPError 503]
           @ [WriteCutout (cutout_of uploader_dataset 0 (normalize world_flaky (view 0 2))) None])"
proof -
  have h1: "upload_increment uploader = Some 2"
    by (simp add: uploader_def)
  have h2: "py_range 0 (idx0 (shape_zyx uploader)) 2 = Inr ([] @ 0 # [2, 4])"
    by (simp add: uploader_def py_range_def range_from.simps)
  have h3: "upload_loop world_flaky uploader (idx0 (shape_zyx uploader)) 2 [] [] = (Inr (), [])"
    by simp
  have h4: "get_stack world_flaky uploader 0 (min (0 + 2) (idx0 (shape_zyx uploader))) []
              = (Inr (view 0 2), [])"
    by (simp add: get_stack_def uploader_def world_flaky_def world_def view_def volume_def)
  have h5: "dataset uploader = Inr uploader_dataset"
    by (simp add: dataset_def uploader_def uploader_dataset_def)
  have h6: "fails_then_succeeds world_flaky
              (cutout_of uploader_dataset 0 (normalize world_flaky (view 0 2))) []
              [HTTPError 503, HTTPError 503]"
    by (simp add: world_flaky_def world_def)
  have h7: "retry_max uploader = Some 3"
    by (simp add: uploader_def)
  have h8: "int (length [HTTPError 503, HTTPError 503]) \<le> 3"
    by simp
  show ?thesis
    using upload_continues_after_recovered_write [OF h1 h2 h3 h4 h5 h6 h7 h8] .
qed

subsection \<open>The slabs\<close>

lemma range_from_up:
  "0 < step \<Longrightarrow>
   range_from i stop step = (if i < stop then i # range_from (i + step) stop step else [])"
  by (subst range_from.simps) simp

lemma range_from_bounds:
  "0 < step \<Longrightarrow> x \<in> set (range_from i stop step) \<Longrightarrow> i \<le> x \<and> x < stop"
proof (induction i stop step rule: range_from.induct)
  case (1 i stop step)
  show ?case
  proof (cases "i < stop")
    case True
    then have "x = i \<or> x \<in> set (range_from (i + step) stop step)"
      using "1.prems" by (subst (asm) range_from_up) auto
    then show ?thesis
      using "1.IH" "1.prems"(1) True by fastforce
  next
    case False
    then show ?thesis using "1.prems" by (subst (asm) range_from_up) auto
  qed
qed

lemma range_from_ascending:
  "0 < step \<Longrightarrow> sorted_wrt (<) (range_from i stop step)"
proof (induction i stop step rule: range_from.induct)
  case (1 i stop step)
  show ?case
  proof (cases "i < stop")
    case True
    have "\<forall>x \<in> set (range_from (i + step) stop step). i < x"
      using range_from_bounds [OF "1.prems", of _ "i + step" stop] "1.prems" by fastforce
    then show ?thesis
      using "1.IH" "1.prems" True by (subst range_from_up) auto
  next
    case False
    then show ?thesis using "1.prems" by (subst range_from_up) auto
  qed
qed

lemma range_from_partition:
  "0 < step \<Longrightarrow> i \<le> stop \<Longrightarrow>
   concat (map (\<lambda>a. [a .. min (a + step) stop - 1]) (range_from i stop step)) = [i .. stop - 1]"
proof (induction i stop step rule: range_from.induct)
  case (1 i stop step)
  show ?case
  proof (cases "i < stop")
    case True
    show ?thesis
    proof (cases "i + step \<le> stop")
      case le: True
      have "concat (map (\<lambda>a. [a .. min (a + step) stop - 1]) (range_from (i + step) stop step))
              = [i + step .. stop - 1]"
        using "1.IH" "1.prems"(1) True le by simp
      moreover have "[i .. stop - 1] = [i .. i + step - 1] @ [i + step .. stop - 1]"
        using upto_split2 [of i "i + step - 1" "stop - 1"] "1.prems"(1) le by simp
      ultimately show ?thesis
        using "1.prems"(1) True le by (subst range_from_up) (simp_all add: min_def)
    next
      case gt: False
      have "range_from (i + step) stop step = []"
        using gt "1.prems"(1) by (subst range_from_up) simp_all
      then show ?thesis
        using "1.prems"(1) True gt by (subst range_from_up) (simp_all add: min_def)
    qed
  next
    case False
    then show ?thesis using "1.prems" by (subst range_from_up) simp_all
  qed
qed

lemma range_from_last:
  "0 < step \<Longrightarrow> i < stop \<Longrightarrow>
   last (range_from i stop step) < stop
   \<and> stop \<le> last (range_from i stop step) + step
   \<and> (last (range_from i stop step) - i) mod step = 0"
proof (induction i stop step rule: range_from.induct)
  case (1 i stop step)
  show ?case
  proof (cases "i + step < stop")
    case True
    have ne: "range_from (i + step) stop step \<noteq> []"
      using True "1.prems"(1) by (subst range_from_up) simp_all
    have l: "last (range_from i stop step) = last (range_from (i + step) stop step)"
      using "1.prems" ne by (subst range_from_up) simp_all
    have ih: "last (range_from (i + step) stop step) < stop
       \<and> stop \<le> last (range_from (i + step) stop step) + step
       \<and> (last (range_from (i + step) stop step) - (i + step)) mod step = 0"
      using "1.IH" "1.prems" True by simp
    have "last (range_from (i + step) stop step) - i
            = (last (range_from (i + step) stop step) - (i + step)) + step"
      by simp
    then have "(last (range_from (i + step) stop step) - i) mod step
            = (last (range_from (i + step) stop step) - (i + step)) mod step"
      by (metis mod_add_self2)
    then show ?thesis using ih l by simp
  next
    case False
    have "range_from (i + step) stop step = []"
      using False "1.prems"(1) by (subst range_from_up) simp_all
    then have "range_from i stop step = [i]"
      using "1.prems" by (subst range_from_up) simp_all
    then show ?thesis using "1.prems" False by simp
  qed
qed

lemma last_slab_length:
  assumes "0 < inc" and "0 < depth"
  shows "min (last (range_from 0 depth inc) + inc) depth - last (range_from 0 depth inc)
           = (if depth mod inc = 0 then inc else depth mod inc)"
proof -
  let ?l = "last (range_from 0 depth inc)"
  have l: "?l < depth" "depth \<le> ?l + inc" "?l mod inc = 0"
    using range_from_last [OF assms(1), of 0 depth] assms(2) by simp_all
  let ?r = "depth - ?l"
  have r: "0 < ?r" "?r \<le> inc" using l by simp_all
  have "depth mod inc = (?l + ?r) mod inc" by simp
  also have "\<dots> = ?r mod inc" using l(3) by (metis add.commute mod_add_right_eq add.right_neutral mod_mod_trivial)
  finally have m: "depth mod inc = ?r mod inc" .
  have mn: "min (?l + inc) depth = depth" using l(2) by simp
  show ?thesis
  proof (cases "?r = inc")
    case True
    then show ?thesis using m mn by simp
  next
    case False
    then have "?r mod inc = ?r" using r by simp
    then show ?thesis using m mn r by simp
  qed
qed

subsection \<open>The writes of an upload\<close>

lemma attempted_append: "attempted (xs @ ys) = attempted xs @ attempted ys"
  by (induction xs rule: attempted.induct) simp_all

lemma written_append: "written (xs @ ys) = written xs @ written ys"
  by (induction xs rule: written.induct) simp_all

lemma attempted_no_write: "\<not> list_ex is_write evs \<Longrightarrow> attempted evs = []"
  by (induction evs rule: attempted.induct) simp_all

lemma written_no_write: "\<not> list_ex is_write evs \<Longrightarrow> written evs = []"
  by (induction evs rule: written.induct) simp_all

lemma py_slice_length:
  "0 \<le> i \<Longrightarrow> i \<le> z \<Longrightarrow> z \<le> int (length xs) \<Longrightarrow> length (py_slice xs i z) = nat (z - i)"
  by (simp add: py_slice_def slice_bound_def Let_def min_def) linarith

lemma open_images_length:
  "open_images E paths tr = (Inr imgs, t) \<Longrightarrow> length imgs = length paths"
proof (induction paths arbitrary: tr imgs t)
  case Nil
  then show ?case by simp
next
  case (Cons p paths)
  then show ?case
    by (auto simp add: Let_def split: sum.splits prod.splits)
qed

lemma convert_images_length:
  "convert_images E self imgs = Inr ps \<Longrightarrow> length ps = length imgs"
proof (induction imgs arbitrary: ps)
  case Nil
  then show ?case by simp
next
  case (Cons im imgs)
  then show ?case
    by (auto split: attr.splits sum.splits)
qed

lemma np_stack_length: "np_stack E ps = Inr a \<Longrightarrow> length (planes a) = length ps"
  by (auto simp add: np_stack_def split: list.splits if_splits)

lemma get_stack_length:
  assumes "get_stack E self i z tr = (Inr stack, t)"
    and "0 \<le> i" and "i \<le> z" and "z \<le> int (source_len self)"
  shows "length (planes stack) = nat (z - i)"
proof (cases "raw_data self")
  case (Some arr)
  then have "planes stack = py_slice (planes arr) i z"
    using assms(1) by (auto simp add: get_stack_def)
  then show ?thesis
    using py_slice_length [OF assms(2,3), of "planes arr"] assms(4) Some
    by (simp add: source_len_def)
next
  case None
  show ?thesis
  proof (cases "image_paths self")
    case Unset
    then show ?thesis using assms(1) None by (simp add: get_stack_def np_from_images_def)
  next
    case (Assigned paths)
    obtain r1 t1 where o: "open_images E (py_slice paths i z) tr = (r1, t1)"
      by (cases "open_images E (py_slice paths i z) tr")
    from assms(1) None Assigned o obtain imgs where r1: "r1 = Inr imgs"
      by (cases r1) (simp_all add: get_stack_def np_from_images_def)
    from assms(1) None Assigned o r1 obtain ps where
      c: "convert_images E self imgs = Inr ps" and s: "np_stack E ps = Inr stack"
      by (cases "convert_images E self imgs") (simp_all add: get_stack_def np_from_images_def)
    have "length (planes stack) = length (py_slice paths i z)"
      using np_stack_length [OF s] convert_images_length [OF c]
            open_images_length [OF o [unfolded r1]] by simp
    then show ?thesis
      using py_slice_length [OF assms(2,3), of paths] assms(4) None Assigned
      by (simp add: source_len_def)
  qed
qed

lemma write_loop_events:
  "\<exists>evs. snd (write_loop E self i stack retry_count tr) = tr @ evs
       \<and> list_all (\<lambda>c. buffer c = stack \<and> fst (z_range c) = i \<and> address_of_buffer c)
           (attempted evs)
       \<and> (fst (write_loop E self i stack retry_count tr) = Inr () \<longrightarrow>
            map z_range (written evs) = [(i, i + int (length (planes stack)))])"
proof (induction E self i stack retry_count tr rule: write_loop.induct)
  case (1 E self i stack retry_count tr)
  let ?P = "\<lambda>c. buffer c = stack \<and> fst (z_range c) = i \<and> address_of_buffer c"
  obtain r0 t0 where w: "write_stack E self i stack tr = (r0, t0)"
    by (cases "write_stack E self i stack tr")
  have first: "\<exists>ev0. t0 = tr @ ev0 \<and> list_all ?P (attempted ev0)
      \<and> (r0 = None \<longrightarrow> map z_range (written ev0) = [(i, i + int (length (planes stack)))])
      \<and> (r0 \<noteq> None \<longrightarrow> written ev0 = [])"
  proof (cases "dataset self")
    case (Inl e)
    then have "r0 = Some e" "t0 = tr" using w by (simp_all add: write_stack_def)
    then show ?thesis by (intro exI [of _ "[]"]) simp
  next
    case (Inr ds)
    then have ws: "write_stack E self i stack tr =
        (write_cutout E tr (cutout_of ds i stack),
         tr @ [WriteCutout (cutout_of ds i stack) (write_cutout E tr (cutout_of ds i stack))])"
      by (simp add: write_stack_def Let_def)
    have r0: "r0 = write_cutout E tr (cutout_of ds i stack)"
      using w ws by (metis fst_conv)
    have "t0 = tr @ [WriteCutout (cutout_of ds i stack)
                        (write_cutout E tr (cutout_of ds i stack))]"
      using w ws by (metis snd_conv)
    then have t0: "t0 = tr @ [WriteCutout (cutout_of ds i stack) r0]"
      unfolding r0 .
    have p: "?P (cutout_of ds i stack)"
      by (simp add: cutout_of_def address_of_buffer_def)
    have z: "z_range (cutout_of ds i stack) = (i, i + int (length (planes stack)))"
      by (simp add: cutout_of_def)
    show ?thesis
    proof (cases r0)
      case None
      then show ?thesis using t0 p z
        by (intro exI [of _ "[WriteCutout (cutout_of ds i stack) None]"]) simp
    next
      case (Some e)
      then show ?thesis using t0 p
        by (intro exI [of _ "[WriteCutout (cutout_of ds i stack) (Some e)]"]) simp
    qed
  qed
  then obtain ev0 where ev0c: "t0 = tr @ ev0 \<and> list_all ?P (attempted ev0)
      \<and> (r0 = None \<longrightarrow> map z_range (written ev0) = [(i, i + int (length (planes stack)))])
      \<and> (r0 \<noteq> None \<longrightarrow> written ev0 = [])" ..
  have ev0: "t0 = tr @ ev0" "list_all ?P (attempted ev0)"
      "r0 = None \<longrightarrow> map z_range (written ev0) = [(i, i + int (length (planes stack)))]"
      "r0 \<noteq> None \<longrightarrow> written ev0 = []"
    using ev0c by (rule conjunct1, rule conjunct2 [THEN conjunct1],
                   rule conjunct2 [THEN conjunct2, THEN conjunct1],
                   rule conjunct2 [THEN conjunct2, THEN conjunct2])
  show ?case
  proof (cases r0)
    case None
    then have "write_loop E self i stack retry_count tr = (Inr (), t0)"
      using w by (subst write_loop.simps) simp
    then show ?thesis using ev0 None by (intro exI [of _ ev0]) simp
  next
    case (Some e)
    show ?thesis
    proof (cases "retry_max self")
      case None
      then have "write_loop E self i stack retry_count tr
                   = (Inl (TypeError ''> not supported between int and NoneType''), t0)"
        using w Some by (subst write_loop.simps) simp
      then show ?thesis using ev0 by (intro exI [of _ ev0]) simp
    next
      case rm: (Some m)
      show ?thesis
      proof (cases "retry_count + 1 > m")
        case True
        then have "write_loop E self i stack retry_count tr = (Inl e, t0)"
          using w Some rm by (subst write_loop.simps) simp
        then show ?thesis using ev0 by (intro exI [of _ ev0]) simp
      next
        case False
        have eq: "write_loop E self i stack retry_count tr
                    = write_loop E self i stack (retry_count + 1) t0"
          using w Some rm False by (subst write_loop.simps) simp
        from "1.IH" [OF w [symmetric] Some rm False] obtain evs where
          evsc: "snd (write_loop E self i stack (retry_count + 1) t0) = t0 @ evs
               \<and> list_all ?P (attempted evs)
               \<and> (fst (write_loop E self i stack (retry_count + 1) t0) = Inr () \<longrightarrow>
                  map z_range (written evs) = [(i, i + int (length (planes stack)))])" ..
        have evs: "snd (write_loop E self i stack (retry_count + 1) t0) = t0 @ evs"
               "list_all ?P (attempted evs)"
               "fst (write_loop E self i stack (retry_count + 1) t0) = Inr () \<longrightarrow>
                  map z_range (written evs) = [(i, i + int (length (planes stack)))]"
          using evsc by (rule conjunct1, rule conjunct2 [THEN conjunct1],
                         rule conjunct2 [THEN conjunct2])
        show ?thesis
          using eq evs ev0 Some
          by (intro exI [of _ "ev0 @ evs"]) (simp add: attempted_append written_append)
      qed
    qed
  qed
qed

lemma upload_loop_events:
  "\<exists>evs. snd (upload_loop E self depth inc starts tr) = tr @ evs
       \<and> list_all address_of_buffer (attempted evs)
       \<and> (ascontiguousarray_contract E \<and> 0 < inc \<and> depth \<le> int (source_len self)
            \<and> list_all (\<lambda>i. 0 \<le> i \<and> i < depth) starts
            \<and> fst (upload_loop E self depth inc starts tr) = Inr ()
          \<longrightarrow> map z_range (written evs) = map (\<lambda>i. (i, min (i + inc) depth)) starts)"
proof (induction starts arbitrary: tr)
  case Nil
  show ?case by (intro exI [of _ "[]"]) simp
next
  case (Cons i rest)
  let ?z = "min (i + inc) depth"
  let ?Q = "address_of_buffer"
  obtain r t1 where g: "get_stack E self i ?z tr = (r, t1)"
    by (cases "get_stack E self i ?z tr")
  from get_stack_trace [of E self i ?z tr] obtain fetch where
    fc: "snd (get_stack E self i ?z tr) = tr @ fetch \<and> \<not> list_ex is_write fetch" ..
  have fetch: "t1 = tr @ fetch" "attempted fetch = []" "written fetch = []"
    using fc g by (simp_all add: attempted_no_write written_no_write)
  show ?case
  proof (cases r)
    case (Inl e)
    then have "upload_loop E self depth inc (i # rest) tr = (Inl e, t1)"
      using g by (simp add: Let_def)
    then show ?thesis using fetch by (intro exI [of _ fetch]) simp
  next
    case (Inr stack)
    let ?s = "normalize E stack"
    obtain r2 t2 where w: "write_loop E self i ?s 0 t1 = (r2, t2)"
      by (cases "write_loop E self i ?s 0 t1")
    from write_loop_events [of E self i ?s 0 t1] obtain wev where
      wc: "snd (write_loop E self i ?s 0 t1) = t1 @ wev
         \<and> list_all (\<lambda>c. buffer c = ?s \<and> fst (z_range c) = i \<and> address_of_buffer c)
             (attempted wev)
         \<and> (fst (write_loop E self i ?s 0 t1) = Inr () \<longrightarrow>
              map z_range (written wev) = [(i, i + int (length (planes ?s)))])" ..
    have w1: "t2 = t1 @ wev" using wc w by simp
    have w2: "list_all (\<lambda>c. buffer c = ?s \<and> fst (z_range c) = i \<and> address_of_buffer c)
             (attempted wev)" using wc by (rule conjunct2 [THEN conjunct1])
    have w3: "r2 = Inr () \<longrightarrow> map z_range (written wev) = [(i, i + int (length (planes ?s)))]"
      using wc w by simp
    have q: "list_all ?Q (attempted wev)"
      using w2 by (rule list.pred_mono_strong) simp
    show ?thesis
    proof (cases r2)
      case (Inl e)
      then have "upload_loop E self depth inc (i # rest) tr = (Inl e, t2)"
        using g \<open>r = Inr stack\<close> w by (simp add: Let_def)
      then show ?thesis using fetch w1 q
        by (intro exI [of _ "fetch @ wev"]) (simp add: attempted_append)
    next
      case u: (Inr u)
      have eq: "upload_loop E self depth inc (i # rest) tr = upload_loop E self depth inc rest t2"
        using g Inr w u by (simp add: Let_def)
      from Cons.IH [of t2] obtain evs where
        ec: "snd (upload_loop E self depth inc rest t2) = t2 @ evs
           \<and> list_all ?Q (attempted evs)
           \<and> (ascontiguousarray_contract E \<and> 0 < inc \<and> depth \<le> int (source_len self)
                \<and> list_all (\<lambda>i. 0 \<le> i \<and> i < depth) rest
                \<and> fst (upload_loop E self depth inc rest t2) = Inr ()
              \<longrightarrow> map z_range (written evs) = map (\<lambda>i. (i, min (i + inc) depth)) rest)" ..
      have e1: "snd (upload_loop E self depth inc rest t2) = t2 @ evs"
        using ec by (rule conjunct1)
      have e2: "list_all ?Q (attempted evs)" using ec by (rule conjunct2 [THEN conjunct1])
      have e3: "ascontiguousarray_contract E \<and> 0 < inc \<and> depth \<le> int (source_len self)
                \<and> list_all (\<lambda>i. 0 \<le> i \<and> i < depth) rest
                \<and> fst (upload_loop E self depth inc rest t2) = Inr ()
              \<longrightarrow> map z_range (written evs) = map (\<lambda>i. (i, min (i + inc) depth)) rest"
        using ec by (rule conjunct2 [THEN conjunct2])
      have main: "map z_range (written (fetch @ wev @ evs))
                    = map (\<lambda>i. (i, min (i + inc) depth)) (i # rest)"
        if h: "ascontiguousarray_contract E" "0 < inc" "depth \<le> int (source_len self)"
              "list_all (\<lambda>i. 0 \<le> i \<and> i < depth) (i # rest)"
              "fst (upload_loop E self depth inc (i # rest) tr) = Inr ()"
      proof -
        have i: "0 \<le> i" "i < depth" and rest: "list_all (\<lambda>i. 0 \<le> i \<and> i < depth) rest"
          using h(4) by simp_all
        have "length (planes stack) = nat (?z - i)"
          using get_stack_length [OF g [unfolded Inr], of] i h(2,3) by simp
        moreover have "length (planes ?s) = length (planes stack)"
          using h(1) by (simp add: normalize_def ascontiguousarray_contract_def)
        ultimately have len: "i + int (length (planes ?s)) = ?z"
          using i h(2) by simp
        have "map z_range (written evs) = map (\<lambda>i. (i, min (i + inc) depth)) rest"
          using e3 h(1,2,3) rest h(5) eq by simp
        then show ?thesis
          using fetch(3) w3 u len by (simp add: written_append)
      qed
      show ?thesis
        using eq e1 e2 q fetch w1 main
        by (intro exI [of _ "fetch @ wev @ evs"]) (simp add: attempted_append)
    qed
  qed
qed

lemma upload_loop_accepted:
  assumes "raw_data self = Some arr"
    and "dataset self = Inr ds"
    and "\<forall>h c. write_cutout E h c = None"
  shows "fst (upload_loop E self depth inc starts tr) = Inr ()"
proof (induction starts arbitrary: tr)
  case Nil
  show ?case by simp
next
  case (Cons i rest)
  let ?stack = "arr\<lparr>planes := py_slice (planes arr) i (min (i + inc) depth),
                     c_contiguous := view_c_contiguous E arr i (min (i + inc) depth)\<rparr>"
  let ?c = "cutout_of ds i (normalize E ?stack)"
  have g: "get_stack E self i (min (i + inc) depth) tr = (Inr ?stack, tr)"
    using assms(1) by (simp add: get_stack_def)
  have w: "write_loop E self i (normalize E ?stack) 0 tr = (Inr (), tr @ [WriteCutout ?c None])"
    using assms(3) by (subst write_loop.simps) (simp add: write_stack_answer [OF assms(2)])
  show ?case
    using g w Cons.IH [of "tr @ [WriteCutout ?c None]"] by (simp add: Let_def)
qed

text \<open>
  C4. For a depth and an increment that are positive, the starts of the loop are
  ascending, every slab \<open>[i, min (i + inc) depth)\<close> is non-empty, the slabs in order
  make up \<open>[0, depth)\<close> exactly, and the last slab has \<open>depth mod inc\<close> slices, or \<open>inc\<close>
  when the increment divides the depth. Every write attempt of \<^verbatim>\<open>upload\<close> addresses the
  depth range that starts at the slab's start and has the length of the buffer it
  passes; for a source that holds at least \<open>depth\<close> slices (and numpy's contract for
  \<^verbatim>\<open>np.ascontiguousarray\<close>), the depth ranges written by an upload that completes are
  the slabs, in order. Depth 40 and increment 16 give the starts 0, 16, 32 with the
  lengths 16, 16, 8.
\<close>

theorem upload_slabs_partition_depth:
  assumes "idx0 (shape_zyx self) = depth"
    and "0 < depth"
    and "upload_increment self = Some inc"
    and "0 < inc"
  shows "\<exists>starts evs.
           py_range 0 depth inc = Inr starts
         \<and> concat (map (\<lambda>i. [i .. min (i + inc) depth - 1]) starts) = [0 .. depth - 1]
         \<and> sorted_wrt (<) starts
         \<and> list_all (\<lambda>i. i < min (i + inc) depth) starts
         \<and> min (last starts + inc) depth - last starts
             = (if depth mod inc = 0 then inc else depth mod inc)
         \<and> snd (upload E self tr) = tr @ evs
         \<and> list_all address_of_buffer (attempted evs)
         \<and> (ascontiguousarray_contract E \<and> depth \<le> int (source_len self)
              \<and> fst (upload E self tr) = Inr ()
            \<longrightarrow> map z_range (written evs) = map (\<lambda>i. (i, min (i + inc) depth)) starts)
         \<and> py_range 0 40 16 = Inr [0, 16, 32]
         \<and> map (\<lambda>i. (i, min (i + 16) 40 - i)) [0, 16, 32 :: int]
             = [(0, 16), (16, 16), (32, 8)]"
proof -
  let ?starts = "range_from 0 depth inc"
  have r: "py_range 0 depth inc = Inr ?starts"
    using assms(4) by (simp add: py_range_def)
  have u: "upload E self tr = upload_loop E self depth inc ?starts tr"
    using assms(1,3) r by (simp add: upload_def Let_def)
  have p: "concat (map (\<lambda>i. [i .. min (i + inc) depth - 1]) ?starts) = [0 .. depth - 1]"
    using range_from_partition [OF assms(4), of 0 depth] assms(2) by simp
  have s: "sorted_wrt (<) ?starts"
    using assms(4) by (rule range_from_ascending)
  have b: "list_all (\<lambda>i. 0 \<le> i \<and> i < depth) ?starts"
    unfolding list_all_iff using range_from_bounds [OF assms(4), of _ 0 depth] by fast
  have n: "list_all (\<lambda>i. i < min (i + inc) depth) ?starts"
    using b by (rule list.pred_mono_strong) (simp add: assms(4))
  have l: "min (last ?starts + inc) depth - last ?starts
             = (if depth mod inc = 0 then inc else depth mod inc)"
    using assms(4,2) by (rule last_slab_length)
  from upload_loop_events [of E self depth inc ?starts tr] obtain evs where
    ec: "snd (upload_loop E self depth inc ?starts tr) = tr @ evs
       \<and> list_all address_of_buffer (attempted evs)
       \<and> (ascontiguousarray_contract E \<and> 0 < inc \<and> depth \<le> int (source_len self)
            \<and> list_all (\<lambda>i. 0 \<le> i \<and> i < depth) ?starts
            \<and> fst (upload_loop E self depth inc ?starts tr) = Inr ()
          \<longrightarrow> map z_range (written evs) = map (\<lambda>i. (i, min (i + inc) depth)) ?starts)" ..
  have e1: "snd (upload E self tr) = tr @ evs"
    using ec u by simp
  have e2: "list_all address_of_buffer (attempted evs)"
    using ec by (rule conjunct2 [THEN conjunct1])
  have e3: "ascontiguousarray_contract E \<and> depth \<le> int (source_len self)
              \<and> fst (upload E self tr) = Inr ()
            \<longrightarrow> map z_range (written evs) = map (\<lambda>i. (i, min (i + inc) depth)) ?starts"
    using ec u b assms(4) by simp
  have x1: "py_range 0 40 16 = Inr [0, 16, 32]"
    by (simp add: py_range_def range_from.simps)
  have x2: "map (\<lambda>i. (i, min (i + 16) 40 - i)) [0, 16, 32 :: int]
              = [(0, 16), (16, 16), (32, 8)]"
    by simp
  show ?thesis
    using r p s n l e1 e2 e3 x1 x2 by (intro exI [of _ ?starts] exI [of _ evs] conjI)
qed

theorem upload_slabs_partition_depth_witness:
  "py_range 0 5 2 = Inr [0, 2, 4]
   \<and> concat (map (\<lambda>i. [i .. min (i + 2) 5 - 1]) [0, 2, 4]) = [0 .. 5 - 1]
   \<and> list_all address_of_buffer (attempted (snd (upload world uploader [])))
   \<and> map z_range (written (snd (upload world uploader []))) = [(0, 2), (2, 4), (4, 5)]"
proof -
  have h: "idx0 (shape_zyx uploader) = 5" "(0::int) < 5"
          "upload_increment uploader = Some 2" "(0::int) < 2"
    by (simp_all add: uploader_def)
  from upload_slabs_partition_depth [OF h, of world "[]"] obtain starts evs where
    c: "py_range 0 5 2 = Inr starts
      \<and> concat (map (\<lambda>i. [i .. min (i + 2) 5 - 1]) starts) = [0 .. 5 - 1]
      \<and> sorted_wrt (<) starts
      \<and> list_all (\<lambda>i. i < min (i + 2) 5) starts
      \<and> min (last starts + 2) 5 - last starts = (if (5::int) mod 2 = 0 then 2 else 5 mod 2)
      \<and> snd (upload world uploader []) = [] @ evs
      \<and> list_all address_of_buffer (attempted evs)
      \<and> (ascontiguousarray_contract world \<and> 5 \<le> int (source_len uploader)
           \<and> fst (upload world uploader []) = Inr ()
         \<longrightarrow> map z_range (written evs) = map (\<lambda>i. (i, min (i + 2) 5)) starts)
      \<and> py_range 0 40 16 = Inr [0, 16, 32]
      \<and> map (\<lambda>i. (i, min (i + 16) 40 - i)) [0, 16, 32 :: int]
          = [(0, 16), (16, 16), (32, 8)]"
    by (elim exE)
  have r: "py_range 0 5 2 = Inr [0, 2, 4]"
    by (simp add: py_range_def range_from.simps)
  have st: "starts = [0, 2, 4]" using c r by simp
  have k: "ascontiguousarray_contract world"
    by (simp add: ascontiguousarray_contract_def world_def)
  have n: "5 \<le> int (source_len uploader)"
    by (simp add: source_len_def uploader_def volume_def)
  have ds: "dataset uploader = Inr uploader_dataset"
    by (simp add: dataset_def uploader_def uploader_dataset_def)
  have f: "fst (upload world uploader []) = Inr ()"
    using upload_loop_accepted [of uploader volume uploader_dataset world 5 2 "[0, 2, 4]" "[]"] ds r
    by (simp add: upload_def Let_def uploader_def world_def)
  have ev: "snd (upload world uploader []) = evs" using c by simp
  have "map z_range (written evs) = map (\<lambda>i. (i, min (i + 2) 5)) starts"
    using c k n f by simp
  then have z: "map z_range (written evs) = [(0, 2), (2, 4), (4, 5)]"
    using st by simp
  have a: "list_all address_of_buffer (attempted evs)"
    using c by simp
  have p: "concat (map (\<lambda>i. [i .. min (i + 2) 5 - 1]) [0, 2, 4]) = [0 .. 5 - 1]"
    using c st by simp
  show ?thesis
    using r p a z ev by simp
qed

subsection \<open>Contiguity\<close>

lemma from_source_intro:
  assumes "get_stack E self i (min (i + inc) z_max) h = (Inr stack, h @ fetch)"
    and "fst (z_range c) = i"
    and "buffer c = normalize E stack"
  shows "from_source E self z_max inc (h @ fetch @ later) c"
proof -
  have "length h \<in> set [0 ..< Suc (length (h @ fetch @ later))]"
    by simp
  moreover have "case get_stack E self (fst (z_range c)) (min (fst (z_range c) + inc) z_max)
                        (take (length h) (h @ fetch @ later)) of
                   (Inl e, h') \<Rightarrow> False
                 | (Inr stack, h') \<Rightarrow> take (length h') (h @ fetch @ later) = h'
                                        \<and> buffer c = normalize E stack"
    using assms by simp
  ultimately show ?thesis
    unfolding from_source_def list_ex_iff by (rule bexI [rotated])
qed

lemma from_source_contiguous:
  assumes "ascontiguousarray_contract E"
    and "from_source E self z_max inc whole c"
  shows "c_contiguous (buffer c)"
proof -
  have norm: "\<And>s. c_contiguous (normalize E s)"
    using assms(1) by (simp add: normalize_def ascontiguousarray_contract_def)
  from assms(2) obtain n where
    n: "case get_stack E self (fst (z_range c)) (min (fst (z_range c) + inc) z_max)
               (take n whole) of
          (Inl e, h) \<Rightarrow> False
        | (Inr stack, h) \<Rightarrow> take (length h) whole = h \<and> buffer c = normalize E stack"
    unfolding from_source_def list_ex_iff by (elim bexE)
  then show ?thesis
    using norm by (simp split: prod.splits sum.splits)
qed

text \<open>The first thing the retry loop does is a write attempt with the stack it is given.\<close>

lemma write_loop_first:
  assumes ds: "dataset self = Inr ds"
  shows "\<exists>r later. snd (write_loop E self i stack retry_count tr)
                    = tr @ WriteCutout (cutout_of ds i stack) r # later"
proof -
  let ?c = "cutout_of ds i stack"
  let ?r = "write_cutout E tr ?c"
  let ?t = "tr @ [WriteCutout ?c ?r]"
  have ws: "write_stack E self i stack tr = (?r, ?t)"
    using ds by (rule write_stack_answer)
  show ?thesis
  proof (cases ?r)
    case None
    then have "write_loop E self i stack retry_count tr = (Inr (), ?t)"
      using ws by (subst write_loop.simps) simp
    then show ?thesis by (intro exI [of _ ?r] exI [of _ "[]"]) simp
  next
    case (Some e)
    show ?thesis
    proof (cases "retry_max self")
      case None
      then have "snd (write_loop E self i stack retry_count tr) = ?t"
        using ws Some by (subst write_loop.simps) simp
      then show ?thesis by (intro exI [of _ ?r] exI [of _ "[]"]) simp
    next
      case m: (Some m)
      show ?thesis
      proof (cases "retry_count + 1 > m")
        case True
        then have "snd (write_loop E self i stack retry_count tr) = ?t"
          using ws Some m by (subst write_loop.simps) simp
        then show ?thesis by (intro exI [of _ ?r] exI [of _ "[]"]) simp
      next
        case False
        then have eq: "write_loop E self i stack retry_count tr
                        = write_loop E self i stack (retry_count + 1) ?t"
          using ws Some m by (subst write_loop.simps) simp
        from write_loop_events [of E self i stack "retry_count + 1" ?t] obtain evs where
          ec: "snd (write_loop E self i stack (retry_count + 1) ?t) = ?t @ evs
             \<and> list_all (\<lambda>c. buffer c = stack \<and> fst (z_range c) = i \<and> address_of_buffer c)
                 (attempted evs)
             \<and> (fst (write_loop E self i stack (retry_count + 1) ?t) = Inr () \<longrightarrow>
                  map z_range (written evs) = [(i, i + int (length (planes stack)))])" ..
        have "snd (write_loop E self i stack (retry_count + 1) ?t) = ?t @ evs"
          using ec by (rule conjunct1)
        then show ?thesis using eq by (intro exI [of _ ?r] exI [of _ evs]) simp
      qed
    qed
  qed
qed

text \<open>Every write attempt of the loop carries the slab of its own iteration.\<close>

lemma upload_loop_sources:
  "\<exists>evs. snd (upload_loop E self depth inc starts tr) = tr @ evs
       \<and> list_all (from_source E self depth inc (tr @ evs)) (attempted evs)"
proof (induction starts arbitrary: tr)
  case Nil
  show ?case by (intro exI [of _ "[]"]) simp
next
  case (Cons i rest)
  let ?z = "min (i + inc) depth"
  obtain r t1 where g: "get_stack E self i ?z tr = (r, t1)"
    by (cases "get_stack E self i ?z tr")
  from get_stack_trace [of E self i ?z tr] obtain fetch where
    fc: "snd (get_stack E self i ?z tr) = tr @ fetch \<and> \<not> list_ex is_write fetch" ..
  have fetch: "t1 = tr @ fetch" "attempted fetch = []"
    using fc g by (simp_all add: attempted_no_write)
  show ?case
  proof (cases r)
    case (Inl e)
    then have "upload_loop E self depth inc (i # rest) tr = (Inl e, t1)"
      using g by (simp add: Let_def)
    then show ?thesis using fetch by (intro exI [of _ fetch]) simp
  next
    case (Inr stack)
    let ?s = "normalize E stack"
    have gs: "get_stack E self i ?z tr = (Inr stack, tr @ fetch)"
      using g Inr fetch(1) by simp
    obtain r2 t2 where w: "write_loop E self i ?s 0 t1 = (r2, t2)"
      by (cases "write_loop E self i ?s 0 t1")
    from write_loop_events [of E self i ?s 0 t1] obtain wev where
      wc: "snd (write_loop E self i ?s 0 t1) = t1 @ wev
         \<and> list_all (\<lambda>c. buffer c = ?s \<and> fst (z_range c) = i \<and> address_of_buffer c)
             (attempted wev)
         \<and> (fst (write_loop E self i ?s 0 t1) = Inr () \<longrightarrow>
              map z_range (written wev) = [(i, i + int (length (planes ?s)))])" ..
    have w1: "t2 = tr @ fetch @ wev" using wc w fetch(1) by simp
    have w2: "list_all (\<lambda>c. buffer c = ?s \<and> fst (z_range c) = i \<and> address_of_buffer c)
             (attempted wev)" using wc by (rule conjunct2 [THEN conjunct1])
    have q: "list_all (from_source E self depth inc (tr @ fetch @ later)) (attempted wev)"
      for later
      using w2 by (rule list.pred_mono_strong) (simp add: from_source_intro [OF gs])
    show ?thesis
    proof (cases r2)
      case (Inl e)
      then have "upload_loop E self depth inc (i # rest) tr = (Inl e, t2)"
        using g \<open>r = Inr stack\<close> w by (simp add: Let_def)
      then show ?thesis using fetch(2) w1 q [of wev]
        by (intro exI [of _ "fetch @ wev"]) (simp add: attempted_append)
    next
      case u: (Inr u)
      have eq: "upload_loop E self depth inc (i # rest) tr = upload_loop E self depth inc rest t2"
        using g Inr w u by (simp add: Let_def)
      from Cons.IH [of t2] obtain evs where
        ec: "snd (upload_loop E self depth inc rest t2) = t2 @ evs
           \<and> list_all (from_source E self depth inc (t2 @ evs)) (attempted evs)" ..
      have e1: "snd (upload_loop E self depth inc rest t2) = tr @ fetch @ wev @ evs"
        using ec w1 by simp
      have e2: "list_all (from_source E self depth inc (tr @ fetch @ wev @ evs)) (attempted evs)"
        using ec w1 by simp
      show ?thesis
        using eq e1 e2 q [of "wev @ evs"] fetch(2)
        by (intro exI [of _ "fetch @ wev @ evs"]) (simp add: attempted_append)
    qed
  qed
qed

text \<open>
  C10. Take an upload whose loop reaches the start \<open>i\<close> (the iterations before it
  completed) and whose volume source gives the slab \<open>stack\<close> for \<open>i\<close>, on an object whose
  dtype is assigned. Then the next event of the upload is a cutout write at \<open>i\<close> whose
  buffer is \<open>normalize E stack\<close>: the slab itself when the slab is C-contiguous, and
  \<^verbatim>\<open>np.ascontiguousarray(stack)\<close> when it is not. Under numpy's contract for
  \<^verbatim>\<open>np.ascontiguousarray\<close> (its result is C-contiguous and has the shape and the elements of
  its argument) that buffer is C-contiguous and has the planes and the extents of the
  slab. Every write attempt of the upload, retries included, passes a C-contiguous
  buffer that is the normalized form of the slab the volume source gave for the start
  of that write.
\<close>

theorem upload_writes_contiguous_buffers:
  assumes "ascontiguousarray_contract E"
    and "upload_increment self = Some inc"
    and "py_range 0 (idx0 (shape_zyx self)) inc = Inr (pre @ i # rest)"
    and "upload_loop E self (idx0 (shape_zyx self)) inc pre tr = (Inr (), tr0)"
    and "get_stack E self i (min (i + inc) (idx0 (shape_zyx self))) tr0 = (Inr stack, tr1)"
    and "dataset self = Inr ds"
  shows "\<exists>r later evs.
           snd (upload E self tr)
             = tr1 @ WriteCutout (cutout_of ds i (normalize E stack)) r # later
         \<and> buffer (cutout_of ds i (normalize E stack)) = normalize E stack
         \<and> (c_contiguous stack \<longrightarrow> normalize E stack = stack)
         \<and> (\<not> c_contiguous stack \<longrightarrow> normalize E stack = ascontiguousarray E stack)
         \<and> c_contiguous (normalize E stack)
         \<and> planes (normalize E stack) = planes stack
         \<and> dim_y (normalize E stack) = dim_y stack
         \<and> dim_x (normalize E stack) = dim_x stack
         \<and> snd (upload E self tr) = tr @ evs
         \<and> list_all (\<lambda>c. c_contiguous (buffer c)
                          \<and> from_source E self (idx0 (shape_zyx self)) inc (tr @ evs) c)
             (attempted evs)"
proof -
  let ?d = "idx0 (shape_zyx self)"
  let ?s = "normalize E stack"
  let ?c = "cutout_of ds i ?s"
  have u: "upload E self tr = upload_loop E self ?d inc (pre @ i # rest) tr"
    using assms(2,3) by (simp add: upload_def Let_def)
  have u2: "upload E self tr = upload_loop E self ?d inc (i # rest) tr0"
    unfolding u using assms(4) by (simp add: upload_loop_append)
  from write_loop_first [OF assms(6), of E i ?s 0 tr1] obtain r later0 where
    wf: "snd (write_loop E self i ?s 0 tr1) = tr1 @ WriteCutout ?c r # later0"
    by (elim exE)
  obtain r2 t2 where w: "write_loop E self i ?s 0 tr1 = (r2, t2)"
    by (cases "write_loop E self i ?s 0 tr1")
  have t2: "t2 = tr1 @ WriteCutout ?c r # later0"
    using wf w by simp
  have first: "\<exists>later. snd (upload E self tr) = tr1 @ WriteCutout ?c r # later"
  proof (cases r2)
    case (Inl e)
    then have "upload_loop E self ?d inc (i # rest) tr0 = (Inl e, t2)"
      using assms(5) w by (simp add: Let_def)
    then show ?thesis using u2 t2 by (intro exI [of _ later0]) simp
  next
    case (Inr v)
    then have eq: "upload_loop E self ?d inc (i # rest) tr0 = upload_loop E self ?d inc rest t2"
      using assms(5) w by (simp add: Let_def)
    from upload_loop_sources [of E self ?d inc rest t2] obtain evs1 where
      ec: "snd (upload_loop E self ?d inc rest t2) = t2 @ evs1
         \<and> list_all (from_source E self ?d inc (t2 @ evs1)) (attempted evs1)" ..
    have "snd (upload_loop E self ?d inc rest t2) = t2 @ evs1"
      using ec by (rule conjunct1)
    then show ?thesis using u2 eq t2 by (intro exI [of _ "later0 @ evs1"]) simp
  qed
  then obtain later where
    f: "snd (upload E self tr) = tr1 @ WriteCutout ?c r # later" ..
  from upload_loop_sources [of E self ?d inc "pre @ i # rest" tr] obtain evs where
    ec: "snd (upload_loop E self ?d inc (pre @ i # rest) tr) = tr @ evs
       \<and> list_all (from_source E self ?d inc (tr @ evs)) (attempted evs)" ..
  have e1: "snd (upload E self tr) = tr @ evs"
    using ec u by simp
  have "list_all (from_source E self ?d inc (tr @ evs)) (attempted evs)"
    using ec by (rule conjunct2)
  then have e2: "list_all (\<lambda>c. c_contiguous (buffer c)
                                \<and> from_source E self ?d inc (tr @ evs) c) (attempted evs)"
    by (rule list.pred_mono_strong) (simp add: from_source_contiguous [OF assms(1)])
  have b: "buffer ?c = ?s"
    by (simp add: cutout_of_def)
  have same: "c_contiguous stack \<longrightarrow> ?s = stack"
    by (simp add: normalize_def)
  have conv: "\<not> c_contiguous stack \<longrightarrow> ?s = ascontiguousarray E stack"
    by (simp add: normalize_def)
  have norm: "c_contiguous ?s"
    using assms(1) by (simp add: normalize_def ascontiguousarray_contract_def)
  have keep: "planes ?s = planes stack" "dim_y ?s = dim_y stack" "dim_x ?s = dim_x stack"
    using assms(1) by (simp_all add: normalize_def ascontiguousarray_contract_def)
  show ?thesis
    using f b same conv norm keep e1 e2
    by (intro exI [of _ r] exI [of _ later] exI [of _ evs] conjI)
qed

theorem upload_writes_contiguous_buffers_witness:
  "(\<exists>r later. snd (upload world uploader [])
               = [] @ WriteCutout (cutout_of uploader_dataset 0 (normalize world (view 0 2))) r
                   # later)
   \<and> \<not> c_contiguous (view 0 2)
   \<and> normalize world (view 0 2) = ascontiguousarray world (view 0 2)
   \<and> c_contiguous (normalize world (view 0 2))
   \<and> planes (normalize world (view 0 2)) = [10, 11]
   \<and> (\<exists>r later. snd (upload world uploader_contiguous [])
                 = [] @ WriteCutout
                          (cutout_of uploader_dataset 0 (volume_contiguous\<lparr>planes := [10, 11]\<rparr>)) r
                     # later)
   \<and> c_contiguous (volume_contiguous\<lparr>planes := [10, 11]\<rparr>)"
proof -
  let ?v = "volume_contiguous\<lparr>planes := [10, 11]\<rparr>"
  have k: "ascontiguousarray_contract world"
    by (simp add: ascontiguousarray_contract_def world_def)
  have r: "py_range 0 5 2 = Inr ([] @ 0 # [2, 4])"
    by (simp add: py_range_def range_from.simps)
  have a1: "upload_increment uploader = Some 2"
    by (simp add: uploader_def)
  have a2: "py_range 0 (idx0 (shape_zyx uploader)) 2 = Inr ([] @ 0 # [2, 4])"
    using r by (simp add: uploader_def)
  have a3: "upload_loop world uploader (idx0 (shape_zyx uploader)) 2 [] [] = (Inr (), [])"
    by simp
  have a4: "get_stack world uploader 0 (min (0 + 2) (idx0 (shape_zyx uploader))) []
              = (Inr (view 0 2), [])"
    by (simp add: get_stack_def uploader_def world_def view_def volume_def py_slice_def)
  have a5: "dataset uploader = Inr uploader_dataset"
    by (simp add: dataset_def uploader_def uploader_dataset_def)
  have b1: "upload_increment uploader_contiguous = Some 2"
    by (simp add: uploader_contiguous_def uploader_def)
  have b2: "py_range 0 (idx0 (shape_zyx uploader_contiguous)) 2 = Inr ([] @ 0 # [2, 4])"
    using r by (simp add: uploader_contiguous_def uploader_def)
  have b3: "upload_loop world uploader_contiguous (idx0 (shape_zyx uploader_contiguous)) 2 [] []
              = (Inr (), [])"
    by simp
  have b4: "get_stack world uploader_contiguous 0
              (min (0 + 2) (idx0 (shape_zyx uploader_contiguous))) [] = (Inr ?v, [])"
    by (simp add: get_stack_def uploader_contiguous_def uploader_def world_def
                  volume_contiguous_def volume_def py_slice_def slice_bound_def Let_def)
  have b5: "dataset uploader_contiguous = Inr uploader_dataset"
    by (simp add: dataset_def uploader_contiguous_def uploader_def uploader_dataset_def)
  have v1: "\<not> c_contiguous (view 0 2)"
    by (simp add: view_def volume_def)
  have v2: "planes (view 0 2) = [10, 11]"
    by (simp add: view_def volume_def py_slice_def slice_bound_def Let_def)
  have v3: "c_contiguous ?v"
    by (simp add: volume_contiguous_def)
  from upload_writes_contiguous_buffers [OF k a1 a2 a3 a4 a5] obtain r1 later1 evs1 where
    c1: "snd (upload world uploader [])
           = [] @ WriteCutout (cutout_of uploader_dataset 0 (normalize world (view 0 2))) r1
               # later1
       \<and> buffer (cutout_of uploader_dataset 0 (normalize world (view 0 2)))
           = normalize world (view 0 2)
       \<and> (c_contiguous (view 0 2) \<longrightarrow> normalize world (view 0 2) = view 0 2)
       \<and> (\<not> c_contiguous (view 0 2)
            \<longrightarrow> normalize world (view 0 2) = ascontiguousarray world (view 0 2))
       \<and> c_contiguous (normalize world (view 0 2))
       \<and> planes (normalize world (view 0 2)) = planes (view 0 2)
       \<and> dim_y (normalize world (view 0 2)) = dim_y (view 0 2)
       \<and> dim_x (normalize world (view 0 2)) = dim_x (view 0 2)
       \<and> snd (upload world uploader []) = [] @ evs1
       \<and> list_all (\<lambda>c. c_contiguous (buffer c)
                        \<and> from_source world uploader (idx0 (shape_zyx uploader)) 2 ([] @ evs1) c)
           (attempted evs1)"
    by (elim exE)
  from upload_writes_contiguous_buffers [OF k b1 b2 b3 b4 b5] obtain r2 later2 evs2 where
    c2: "snd (upload world uploader_contiguous [])
           = [] @ WriteCutout (cutout_of uploader_dataset 0 (normalize world ?v)) r2 # later2
       \<and> buffer (cutout_of uploader_dataset 0 (normalize world ?v)) = normalize world ?v
       \<and> (c_contiguous ?v \<longrightarrow> normalize world ?v = ?v)
       \<and> (\<not> c_contiguous ?v \<longrightarrow> normalize world ?v = ascontiguousarray world ?v)
       \<and> c_contiguous (normalize world ?v)
       \<and> planes (normalize world ?v) = planes ?v
       \<and> dim_y (normalize world ?v) = dim_y ?v
       \<and> dim_x (normalize world ?v) = dim_x ?v
       \<and> snd (upload world uploader_contiguous []) = [] @ evs2
       \<and> list_all (\<lambda>c. c_contiguous (buffer c)
                        \<and> from_source world uploader_contiguous
                            (idx0 (shape_zyx uploader_contiguous)) 2 ([] @ evs2) c)
           (attempted evs2)"
    by (elim exE)
  have d1: "\<exists>r later. snd (upload world uploader [])
              = [] @ WriteCutout (cutout_of uploader_dataset 0 (normalize world (view 0 2))) r
                  # later"
    using c1 by (intro exI [of _ r1] exI [of _ later1]) (rule conjunct1)
  have d2: "normalize world (view 0 2) = ascontiguousarray world (view 0 2)"
    using c1 v1 by simp
  have d3: "c_contiguous (normalize world (view 0 2))"
    using c1 by simp
  have d4: "planes (normalize world (view 0 2)) = [10, 11]"
    using c1 v2 by simp
  have same: "normalize world ?v = ?v"
    using c2 v3 by simp
  have "snd (upload world uploader_contiguous [])
           = [] @ WriteCutout (cutout_of uploader_dataset 0 (normalize world ?v)) r2 # later2"
    using c2 by (rule conjunct1)
  then have d5: "\<exists>r later. snd (upload world uploader_contiguous [])
              = [] @ WriteCutout (cutout_of uploader_dataset 0 ?v) r # later"
    unfolding same by (intro exI [of _ r2] exI [of _ later2])
  show ?thesis
    using d1 v1 d2 d3 d4 d5 v3 by (intro conjI)
qed

end
